theory Spec2Isabelle
  imports Main "HOL-Library.Word"
begin

section \<open>The graphics command queue (package graphicscommand)\<close>

text \<open>
  The development embeds the command queue of \<^verbatim>\<open>internal/graphicscommand\<close>:
  the vertex and index accumulator, the merging of draw commands, the preserved
  uniform block, the flush on the render thread and the pool of queues.

  Conventions of the embedding.
  \<^item> A Go slice is a list; \<^verbatim>\<open>len\<close> is \<open>length\<close>. A slice expression or an index
    outside the slice is a panic of the model, never an unspecified value.
  \<^item> Go's \<^verbatim>\<open>int\<close> counters of this package are never negative and are bounded by
    the lengths of slices that exist in memory; they are natural numbers. Values of
    type \<^verbatim>\<open>uint32\<close> are 32-bit words, whose addition wraps.
  \<^item> A \<^verbatim>\<open>float32\<close> is represented by its IEEE-754 bit pattern, so that copying
    is exact and \<^verbatim>\<open>math.Float32bits\<close> is the identity. The two arithmetic operations
    the package applies to floats (conversion from \<^verbatim>\<open>int\<close> and division) are
    parameters of the model.
  \<^item> Pointers to images and shaders are never nil where the code dereferences them
    without a test; an optional source image is an \<open>option\<close>.
  \<^item> Code of other files of the repository that the queue calls is a parameter
    (records \<open>platform\<close>, \<open>deps\<close> and \<open>graphicsDriver\<close>).
\<close>

subsection \<open>Basic types\<close>

type_synonym u32 = "32 word"
type_synonym float32 = "32 word"

datatype error = Error string

datatype panic =
    PanicTooManyVertices nat nat
  | PanicSliceBounds
  | PanicIndexOutOfRange

text \<open>
  \<open>uintBits\<close> is the width of Go's \<^verbatim>\<open>uint\<close> on the target, \<open>VertexFloatCount\<close>
  the constant \<^verbatim>\<open>graphics.VertexFloatCount\<close>; \<open>float32_of_int\<close> is the
  conversion \<^verbatim>\<open>float32(n)\<close> and \<open>float32_div\<close> the division of two floats.
\<close>

record platform =
  uintBits :: nat
  VertexFloatCount :: nat
  float32_of_int :: "int \<Rightarrow> float32"
  float32_div :: "float32 \<Rightarrow> float32 \<Rightarrow> float32"

text \<open>\<^verbatim>\<open>is32bit = 1 >> (^uint(0) >> 63)\<close>, \<^verbatim>\<open>is64bit = 1 - is32bit\<close>.\<close>

definition is32bit :: "platform \<Rightarrow> nat" where
  "is32bit T = drop_bit (drop_bit 63 ((2::nat) ^ uintBits T - 1)) (1::nat)"

definition is64bit :: "platform \<Rightarrow> nat" where
  "is64bit T = 1 - is32bit T"

definition MaxUint32 :: nat where
  "MaxUint32 = 4294967295"

definition MaxInt32 :: nat where
  "MaxInt32 = 2147483647"

definition MaxVertexCount :: "platform \<Rightarrow> nat" where
  "MaxVertexCount T =
     is64bit T * MaxUint32 + is32bit T * (MaxInt32 div VertexFloatCount T)"

definition maxVertexFloatCount :: "platform \<Rightarrow> nat" where
  "maxVertexFloatCount T = MaxVertexCount T * VertexFloatCount T"

text \<open>The largest value of Go's \<^verbatim>\<open>int\<close> on the target.\<close>

definition MaxInt :: "platform \<Rightarrow> nat" where
  "MaxInt T = 2 ^ (uintBits T - 1) - 1"

definition mustUseDifferentVertexBuffer :: "platform \<Rightarrow> nat \<Rightarrow> bool" where
  "mustUseDifferentVertexBuffer T nextNumVertexFloats =
     (nextNumVertexFloats > maxVertexFloatCount T)"

subsection \<open>Images, shaders, rectangles\<close>

text \<open>
  An image pointer is the record of what the queue reads through it: its identity and
  the two results of \<^verbatim>\<open>InternalSize()\<close>. A shader pointer carries its identity and
  the result of \<^verbatim>\<open>unit()\<close>.
\<close>

record image =
  image_id :: nat
  internalWidth :: int
  internalHeight :: int

datatype coord_unit = Texels | Pixels

record shader =
  shader_id :: nat
  shader_unit :: coord_unit

datatype blend = Blend nat

datatype fillRule = FillRuleFillAll | FillRuleNonZero | FillRuleEvenOdd

text \<open>\<^verbatim>\<open>image.Rectangle\<close> of the Go library, with \<^verbatim>\<open>Dx\<close> and \<^verbatim>\<open>Dy\<close>.\<close>

record rectangle =
  MinX :: int
  MinY :: int
  MaxX :: int
  MaxY :: int

definition Dx :: "rectangle \<Rightarrow> int" where
  "Dx r = MaxX r - MinX r"

definition Dy :: "rectangle \<Rightarrow> int" where
  "Dy r = MaxY r - MinY r"

text \<open>An array of \<^verbatim>\<open>graphics.ShaderSrcImageCount\<close> = 4 elements.\<close>

type_synonym 'a array4 = "'a \<times> 'a \<times> 'a \<times> 'a"

record rectangleF32 =
  rf_x :: float32
  rf_y :: float32
  rf_width :: float32
  rf_height :: float32

definition imageRectangleToRectangleF32 :: "platform \<Rightarrow> rectangle \<Rightarrow> rectangleF32" where
  "imageRectangleToRectangleF32 T r =
     \<lparr> rf_x = float32_of_int T (MinX r),
       rf_y = float32_of_int T (MinY r),
       rf_width = float32_of_int T (Dx r),
       rf_height = float32_of_int T (Dy r) \<rparr>"

subsection \<open>Commands\<close>

record dstRegion =
  Region :: rectangle
  IndexCount :: nat

text \<open>
  The record of a draw-triangles command, with the fields that
  \<^verbatim>\<open>EnqueueDrawTrianglesCommand\<close> assigns. Its slice \<open>c_vertices\<close> is a window of the
  queue's vertex slice; the model holds its contents.
\<close>

record drawTrianglesCommand =
  c_dst :: image
  c_srcs :: "image option array4"
  c_vertices :: "float32 list"
  c_blend :: blend
  c_dstRegions :: "dstRegion list"
  c_shader :: shader
  c_uniforms :: "u32 list"
  c_fillRule :: fillRule
  c_firstCaller :: string

text \<open>
  A command is a draw-triangles command or a command of another kind (write pixels,
  read pixels, dispose, ...), which the queue only stores, asks \<^verbatim>\<open>NeedsSync()\<close> and
  executes; such a command is identified by a number.
\<close>

datatype command =
    DrawTrianglesCmd drawTrianglesCommand
  | OtherCmd nat

text \<open>
  Modelled from the spec: the accessors of the draw command record, which live in a
  file of the package that is not part of the sources at hand. The vertex span of a
  command is its vertex slice, its index count the sum over its destination
  sub-regions.
\<close>

definition numVertices :: "drawTrianglesCommand \<Rightarrow> nat" where
  "numVertices c = length (c_vertices c)"

definition numIndices :: "drawTrianglesCommand \<Rightarrow> nat" where
  "numIndices c = sum_list (map IndexCount (c_dstRegions c))"

definition setVertices :: "drawTrianglesCommand \<Rightarrow> float32 list \<Rightarrow> drawTrianglesCommand" where
  "setVertices c vs = c\<lparr>c_vertices := vs\<rparr>"

text \<open>
  Modelled from the spec: the pool of draw command records (a free list). \<open>put\<close>
  returns a record to the pool. \<open>get\<close> takes one out; the caller overwrites every
  field of the record it receives, so only the remaining pool is modelled.
\<close>

definition drawTrianglesCommandPool_put ::
  "drawTrianglesCommand list \<Rightarrow> drawTrianglesCommand \<Rightarrow> drawTrianglesCommand list" where
  "drawTrianglesCommandPool_put p c = p @ [c]"

definition drawTrianglesCommandPool_get ::
  "drawTrianglesCommand list \<Rightarrow> drawTrianglesCommand list" where
  "drawTrianglesCommandPool_get p = butlast p"

text \<open>
  Operations of other files of the repository: the merge test of a draw command, the
  removal of unused uniform variables by the shader's compiled form (which rewrites
  the slice in place), \<^verbatim>\<open>NeedsSync()\<close> of a command, and the caller string that
  the debug build records (empty otherwise).
\<close>

record deps =
  CanMergeWithDrawTrianglesCommand ::
    "drawTrianglesCommand \<Rightarrow> image \<Rightarrow> image option array4 \<Rightarrow> float32 list \<Rightarrow> blend
       \<Rightarrow> shader \<Rightarrow> u32 list \<Rightarrow> fillRule \<Rightarrow> bool"
  FilterUniformVariables :: "shader \<Rightarrow> u32 list \<Rightarrow> u32 list"
  NeedsSync :: "command \<Rightarrow> bool"
  debugFirstCaller :: string

text \<open>
  Modelled from the spec: the merge test as the specification words it. Two draws are
  compatible when they share destination image, source images, shader, blend mode and
  fill rule, and their uniform values (after filtering) are equal.
\<close>

definition specCanMerge ::
  "drawTrianglesCommand \<Rightarrow> image \<Rightarrow> image option array4 \<Rightarrow> float32 list \<Rightarrow> blend
     \<Rightarrow> shader \<Rightarrow> u32 list \<Rightarrow> fillRule \<Rightarrow> bool" where
  "specCanMerge c dst srcs vs bl sh uniforms fr =
     (c_shader c = sh \<and> c_uniforms c = uniforms \<and> c_dst c = dst \<and> c_srcs c = srcs
      \<and> c_blend c = bl \<and> c_fillRule c = fr)"

subsection \<open>The reusable buffer of uniform values\<close>

text \<open>
  \<open>buf_data\<close> is the backing array (its length is the capacity), \<open>buf_len\<close> the length
  of the slice \<^verbatim>\<open>b.buf\<close>.
\<close>

record uint32sBuffer =
  buf_data :: "u32 list"
  buf_len :: nat

text \<open>
  \<^verbatim>\<open>for p2 < x { p2 *= 2 }\<close>, started at 1. A value of 0 would never change; the loop
  never holds it.
\<close>

function roundUpPower2_loop :: "nat \<Rightarrow> nat \<Rightarrow> nat" where
  "roundUpPower2_loop p2 x =
     (if 0 < p2 \<and> p2 < x then roundUpPower2_loop (p2 * 2) x else p2)"
  by pat_completeness auto
termination
  by (relation "measure (\<lambda>(p2, x). x - p2)") auto

definition roundUpPower2 :: "nat \<Rightarrow> nat" where
  "roundUpPower2 x = roundUpPower2_loop 1 x"

text \<open>
  \<open>alloc\<close> returns the offset of the new window of \<open>n\<close> values in the backing array,
  and the buffer. The window holds whatever the backing array holds there: zeros when
  the array is new, the values of an earlier frame otherwise.
\<close>

definition alloc :: "uint32sBuffer \<Rightarrow> nat \<Rightarrow> nat \<times> uint32sBuffer" where
  "alloc b n =
     (let b1 = (if buf_len b + n > length (buf_data b)
                then \<lparr> buf_data = replicate (max (roundUpPower2 (buf_len b + n)) 16) 0,
                       buf_len = 0 \<rparr>
                else b)
      in (buf_len b1, b1\<lparr>buf_len := buf_len b1 + n\<rparr>))"

definition window :: "uint32sBuffer \<Rightarrow> nat \<Rightarrow> nat \<Rightarrow> u32 list" where
  "window b off n = take n (drop off (buf_data b))"

definition store_window :: "uint32sBuffer \<Rightarrow> nat \<Rightarrow> u32 list \<Rightarrow> uint32sBuffer" where
  "store_window b off xs =
     b\<lparr>buf_data := take off (buf_data b) @ xs @ drop (off + length xs) (buf_data b)\<rparr>"

definition reset :: "uint32sBuffer \<Rightarrow> uint32sBuffer" where
  "reset b = b\<lparr>buf_len := 0\<rparr>"

subsection \<open>The preserved uniform block\<close>

definition PreservedUniformDwordCount :: nat where
  "PreservedUniformDwordCount = 46"

text \<open>The bit patterns of the float constants \<^verbatim>\<open>1\<close>, \<^verbatim>\<open>-1\<close> and \<^verbatim>\<open>2\<close>.\<close>

definition float32_one :: float32 where
  "float32_one = 0x3F800000"

definition float32_minus_one :: float32 where
  "float32_minus_one = 0xBF800000"

definition float32_two :: float32 where
  "float32_two = 0x40000000"

text \<open>The four divisions \<^verbatim>\<open>r.x /= float32(w)\<close>, ..., \<^verbatim>\<open>r.height /= float32(h)\<close>.\<close>

definition divideRect :: "platform \<Rightarrow> rectangleF32 \<Rightarrow> int \<Rightarrow> int \<Rightarrow> rectangleF32" where
  "divideRect T r w h =
     \<lparr> rf_x = float32_div T (rf_x r) (float32_of_int T w),
       rf_y = float32_div T (rf_y r) (float32_of_int T h),
       rf_width = float32_div T (rf_width r) (float32_of_int T w),
       rf_height = float32_div T (rf_height r) (float32_of_int T h) \<rparr>"

text \<open>The size written for a source image: zero when the source is nil.\<close>

definition srcWidthBits :: "platform \<Rightarrow> image option \<Rightarrow> u32" where
  "srcWidthBits T src =
     (case src of None \<Rightarrow> 0 | Some s \<Rightarrow> float32_of_int T (internalWidth s))"

definition srcHeightBits :: "platform \<Rightarrow> image option \<Rightarrow> u32" where
  "srcHeightBits T src =
     (case src of None \<Rightarrow> 0 | Some s \<Rightarrow> float32_of_int T (internalHeight s))"

text \<open>
  The source region of one source image: converted to floats, and in the unit Texels
  divided by the source's size unless the source is nil (\<^verbatim>\<open>continue\<close>).
\<close>

definition srcRegionF32 ::
  "platform \<Rightarrow> shader \<Rightarrow> image option \<Rightarrow> rectangle \<Rightarrow> rectangleF32" where
  "srcRegionF32 T sh src r =
     (let sr = imageRectangleToRectangleF32 T r
      in if shader_unit sh = Texels
         then (case src of
                 None \<Rightarrow> sr
               | Some s \<Rightarrow> divideRect T sr (internalWidth s) (internalHeight s))
         else sr)"

definition dstRegionF32 :: "platform \<Rightarrow> shader \<Rightarrow> image \<Rightarrow> rectangle \<Rightarrow> rectangleF32" where
  "dstRegionF32 T sh dst r =
     (let dr = imageRectangleToRectangleF32 T r
      in if shader_unit sh = Texels
         then divideRect T dr (internalWidth dst) (internalHeight dst)
         else dr)"

text \<open>
  The function \<^verbatim>\<open>prependPreservedUniforms\<close>: the bounds check
  \<^verbatim>\<open>_ = uniforms[PreservedUniformDwordCount-1]\<close>, then the 46 assignments in the
  order of the source.
\<close>

fun prependPreservedUniforms ::
  "platform \<Rightarrow> u32 list \<Rightarrow> shader \<Rightarrow> image \<Rightarrow> image option array4 \<Rightarrow> rectangle
     \<Rightarrow> rectangle array4 \<Rightarrow> panic + u32 list" where
  "prependPreservedUniforms T uniforms sh dst (s0, s1, s2, s3) dstRegion (r0, r1, r2, r3) =
     (if length uniforms \<le> PreservedUniformDwordCount - 1 then Inl PanicIndexOutOfRange
      else
        let dw = internalWidth dst;
            dh = internalHeight dst;
            dr = dstRegionF32 T sh dst dstRegion;
            srs0 = srcRegionF32 T sh s0 r0;
            srs1 = srcRegionF32 T sh s1 r1;
            srs2 = srcRegionF32 T sh s2 r2;
            srs3 = srcRegionF32 T sh s3 r3
        in Inr (uniforms
          [0 := float32_of_int T dw,
           1 := float32_of_int T dh,
           2 := srcWidthBits T s0,
           3 := srcHeightBits T s0,
           4 := srcWidthBits T s1,
           5 := srcHeightBits T s1,
           6 := srcWidthBits T s2,
           7 := srcHeightBits T s2,
           8 := srcWidthBits T s3,
           9 := srcHeightBits T s3,
           10 := rf_x dr,
           11 := rf_y dr,
           12 := rf_width dr,
           13 := rf_height dr,
           14 := rf_x srs0,
           15 := rf_y srs0,
           16 := rf_x srs1,
           17 := rf_y srs1,
           18 := rf_x srs2,
           19 := rf_y srs2,
           20 := rf_x srs3,
           21 := rf_y srs3,
           22 := rf_width srs0,
           23 := rf_height srs0,
           24 := rf_width srs1,
           25 := rf_height srs1,
           26 := rf_width srs2,
           27 := rf_height srs2,
           28 := rf_width srs3,
           29 := rf_height srs3,
           30 := float32_div T float32_two (float32_of_int T dw),
           31 := 0,
           32 := 0,
           33 := 0,
           34 := 0,
           35 := float32_div T float32_two (float32_of_int T dh),
           36 := 0,
           37 := 0,
           38 := 0,
           39 := 0,
           40 := float32_one,
           41 := 0,
           42 := float32_minus_one,
           43 := float32_minus_one,
           44 := 0,
           45 := float32_one]))"

text \<open>Go's \<^verbatim>\<open>copy(dst[k:], src)\<close>; it panics when \<open>k\<close> is beyond the slice.\<close>

definition copy_at :: "u32 list \<Rightarrow> nat \<Rightarrow> u32 list \<Rightarrow> panic + u32 list" where
  "copy_at dst k src =
     (if k > length dst then Inl PanicSliceBounds
      else Inr (take k dst @ take (length dst - k) src @ drop (k + length src) dst))"

text \<open>
  The block of 46 values that the assignments of \<^verbatim>\<open>prependPreservedUniforms\<close> leave in
  the slots 0 to 45, as one list (used to state what the function returns).
\<close>

fun preservedUniforms ::
  "platform \<Rightarrow> shader \<Rightarrow> image \<Rightarrow> image option array4 \<Rightarrow> rectangle \<Rightarrow> rectangle array4
     \<Rightarrow> u32 list" where
  "preservedUniforms T sh dst (s0, s1, s2, s3) dstRegion (r0, r1, r2, r3) =
     [float32_of_int T (internalWidth dst), float32_of_int T (internalHeight dst),
      srcWidthBits T s0, srcHeightBits T s0, srcWidthBits T s1, srcHeightBits T s1,
      srcWidthBits T s2, srcHeightBits T s2, srcWidthBits T s3, srcHeightBits T s3,
      rf_x (dstRegionF32 T sh dst dstRegion), rf_y (dstRegionF32 T sh dst dstRegion),
      rf_width (dstRegionF32 T sh dst dstRegion), rf_height (dstRegionF32 T sh dst dstRegion),
      rf_x (srcRegionF32 T sh s0 r0), rf_y (srcRegionF32 T sh s0 r0),
      rf_x (srcRegionF32 T sh s1 r1), rf_y (srcRegionF32 T sh s1 r1),
      rf_x (srcRegionF32 T sh s2 r2), rf_y (srcRegionF32 T sh s2 r2),
      rf_x (srcRegionF32 T sh s3 r3), rf_y (srcRegionF32 T sh s3 r3),
      rf_width (srcRegionF32 T sh s0 r0), rf_height (srcRegionF32 T sh s0 r0),
      rf_width (srcRegionF32 T sh s1 r1), rf_height (srcRegionF32 T sh s1 r1),
      rf_width (srcRegionF32 T sh s2 r2), rf_height (srcRegionF32 T sh s2 r2),
      rf_width (srcRegionF32 T sh s3 r3), rf_height (srcRegionF32 T sh s3 r3),
      float32_div T float32_two (float32_of_int T (internalWidth dst)), 0, 0, 0,
      0, float32_div T float32_two (float32_of_int T (internalHeight dst)), 0, 0,
      0, 0, float32_one, 0,
      float32_minus_one, float32_minus_one, 0, float32_one]"

subsection \<open>The command queue\<close>

text \<open>
  \<open>finalizers\<close> holds the registered callbacks by number; \<open>err\<close> is the error slot
  (\<^verbatim>\<open>atomic.Value\<close>), \<open>None\<close> while nothing is stored.
\<close>

record commandQueue =
  commands :: "command list"
  vertices :: "float32 list"
  indices :: "u32 list"
  tmpNumVertexFloats :: nat
  drawTrianglesCommandPool :: "drawTrianglesCommand list"
  uint32sBuffer :: uint32sBuffer
  finalizers :: "nat list"
  err :: "error option"

definition newCommandQueue :: commandQueue where
  "newCommandQueue =
     \<lparr> commands = [], vertices = [], indices = [], tmpNumVertexFloats = 0,
       drawTrianglesCommandPool = [],
       uint32sBuffer = \<lparr> buf_data = [], buf_len = 0 \<rparr>,
       finalizers = [], err = None \<rparr>"

definition addFinalizer :: "commandQueue \<Rightarrow> nat \<Rightarrow> commandQueue" where
  "addFinalizer q f = q\<lparr>finalizers := finalizers q @ [f]\<rparr>"

text \<open>The loop \<^verbatim>\<open>for i := n; i < len(q.indices); i++ { q.indices[i] += offset }\<close>.\<close>

function appendIndices_loop :: "u32 list \<Rightarrow> u32 \<Rightarrow> nat \<Rightarrow> u32 list" where
  "appendIndices_loop xs offset i =
     (if i < length xs
      then appendIndices_loop (xs[i := xs ! i + offset]) offset (Suc i)
      else xs)"
  by pat_completeness auto
termination
  by (relation "measure (\<lambda>(xs, offset, i). length xs - i)") auto

definition appendIndices :: "commandQueue \<Rightarrow> u32 list \<Rightarrow> u32 \<Rightarrow> commandQueue" where
  "appendIndices q es offset =
     (let n = length (indices q);
          q1 = q\<lparr>indices := indices q @ es\<rparr>
      in q1\<lparr>indices := appendIndices_loop (indices q1) offset n\<rparr>)"

text \<open>\<^verbatim>\<open>q.vertices[len(q.vertices)-n : len(q.vertices)]\<close>.\<close>

definition lastVertices :: "commandQueue \<Rightarrow> nat \<Rightarrow> panic + float32 list" where
  "lastVertices q n =
     (if n > length (vertices q) then Inl PanicSliceBounds
      else Inr (drop (length (vertices q) - n) (vertices q)))"

text \<open>
  The method \<^verbatim>\<open>commandQueue.prependPreservedUniforms\<close>. It returns the new slice, its
  offset in the buffer and the queue; the values are written through to the buffer.
\<close>

definition commandQueue_prependPreservedUniforms ::
  "platform \<Rightarrow> commandQueue \<Rightarrow> u32 list \<Rightarrow> shader \<Rightarrow> image \<Rightarrow> image option array4
     \<Rightarrow> rectangle \<Rightarrow> rectangle array4 \<Rightarrow> panic + (u32 list \<times> nat \<times> commandQueue)" where
  "commandQueue_prependPreservedUniforms T q origUniforms sh dst srcs dstRegion srcRegions =
     (let n = length origUniforms + PreservedUniformDwordCount;
          (off, b) = alloc (uint32sBuffer q) n;
          w = window b off n
      in case copy_at w PreservedUniformDwordCount origUniforms of
           Inl p \<Rightarrow> Inl p
         | Inr w1 \<Rightarrow>
             (case prependPreservedUniforms T w1 sh dst srcs dstRegion srcRegions of
                Inl p \<Rightarrow> Inl p
              | Inr u \<Rightarrow> Inr (u, off, q\<lparr>uint32sBuffer := store_window b off u\<rparr>)))"

text \<open>Lines 138 to 146: the last command absorbs the new draw.\<close>

definition mergeIntoLast ::
  "commandQueue \<Rightarrow> drawTrianglesCommand \<Rightarrow> nat \<Rightarrow> nat \<Rightarrow> rectangle
     \<Rightarrow> panic + drawTrianglesCommand" where
  "mergeIntoLast q l nv ne dstRegion =
     (case lastVertices q (nv + numVertices l) of
        Inl p \<Rightarrow> Inl p
      | Inr vs \<Rightarrow>
          (let l1 = setVertices l vs;
               rs = c_dstRegions l1
           in if rs = [] then Inl PanicIndexOutOfRange
              else if Region (rs ! (length rs - 1)) = dstRegion
              then Inr (l1\<lparr>c_dstRegions :=
                     rs[length rs - 1 :=
                          (rs ! (length rs - 1))
                            \<lparr>IndexCount := IndexCount (rs ! (length rs - 1)) + ne\<rparr>]\<rparr>)
              else Inr (l1\<lparr>c_dstRegions :=
                     rs @ [\<lparr> Region = dstRegion, IndexCount = ne \<rparr>]\<rparr>)))"

text \<open>Lines 152 to 176: a record from the pool is filled and appended.\<close>

definition appendNewCommand ::
  "deps \<Rightarrow> commandQueue \<Rightarrow> image \<Rightarrow> image option array4 \<Rightarrow> float32 list \<Rightarrow> u32 list
     \<Rightarrow> blend \<Rightarrow> rectangle \<Rightarrow> shader \<Rightarrow> u32 list \<Rightarrow> fillRule \<Rightarrow> panic + commandQueue" where
  "appendNewCommand D q dst srcs vs es bl dstRegion sh uniforms fr =
     (case lastVertices q (length vs) of
        Inl p \<Rightarrow> Inl p
      | Inr lv \<Rightarrow>
          Inr (q\<lparr> drawTrianglesCommandPool :=
                   drawTrianglesCommandPool_get (drawTrianglesCommandPool q),
                 commands := commands q @
                   [DrawTrianglesCmd
                      \<lparr> c_dst = dst, c_srcs = srcs, c_vertices = lv, c_blend = bl,
                        c_dstRegions = [\<lparr> Region = dstRegion, IndexCount = length es \<rparr>],
                        c_shader = sh, c_uniforms = uniforms, c_fillRule = fr,
                        c_firstCaller = debugFirstCaller D \<rparr>] \<rparr>))"

text \<open>Lines 135 to 150, then the fall through to the new command.\<close>

definition mergeOrAppend ::
  "deps \<Rightarrow> bool \<Rightarrow> commandQueue \<Rightarrow> image \<Rightarrow> image option array4 \<Rightarrow> float32 list
     \<Rightarrow> u32 list \<Rightarrow> blend \<Rightarrow> rectangle \<Rightarrow> shader \<Rightarrow> u32 list \<Rightarrow> fillRule
     \<Rightarrow> panic + commandQueue" where
  "mergeOrAppend D split q dst srcs vs es bl dstRegion sh uniforms fr =
     (if \<not> split \<and> 0 < length (commands q)
      then (case commands q ! (length (commands q) - 1) of
              DrawTrianglesCmd l \<Rightarrow>
                if CanMergeWithDrawTrianglesCommand D l dst srcs vs bl sh uniforms fr
                then (case mergeIntoLast q l (length vs) (length es) dstRegion of
                        Inl p \<Rightarrow> Inl p
                      | Inr l' \<Rightarrow>
                          Inr (q\<lparr>commands :=
                                 (commands q)[length (commands q) - 1 := DrawTrianglesCmd l']\<rparr>))
                else appendNewCommand D q dst srcs vs es bl dstRegion sh uniforms fr
            | OtherCmd k \<Rightarrow>
                appendNewCommand D q dst srcs vs es bl dstRegion sh uniforms fr)
      else appendNewCommand D q dst srcs vs es bl dstRegion sh uniforms fr)"

text \<open>
  Lines 114 to 124: the split test, the reset of the counter, and the appending of
  vertices and indices. The result is the split flag and the queue.
\<close>

definition accumulate ::
  "platform \<Rightarrow> commandQueue \<Rightarrow> float32 list \<Rightarrow> u32 list \<Rightarrow> bool \<times> commandQueue" where
  "accumulate T q vs es =
     (let split = mustUseDifferentVertexBuffer T (tmpNumVertexFloats q + length vs);
          q1 = (if split then q\<lparr>tmpNumVertexFloats := 0\<rparr> else q);
          q2 = q1\<lparr>vertices := vertices q1 @ vs\<rparr>;
          q3 = appendIndices q2 es (of_nat (tmpNumVertexFloats q2 div VertexFloatCount T));
          q4 = q3\<lparr>tmpNumVertexFloats := tmpNumVertexFloats q3 + length vs\<rparr>
      in (split, q4))"

definition EnqueueDrawTrianglesCommand ::
  "platform \<Rightarrow> deps \<Rightarrow> commandQueue \<Rightarrow> image \<Rightarrow> image option array4 \<Rightarrow> float32 list
     \<Rightarrow> u32 list \<Rightarrow> blend \<Rightarrow> rectangle \<Rightarrow> rectangle array4 \<Rightarrow> shader \<Rightarrow> u32 list
     \<Rightarrow> fillRule \<Rightarrow> panic + commandQueue" where
  "EnqueueDrawTrianglesCommand T D q dst srcs vs es bl dstRegion srcRegions sh uniforms fr =
     (if length vs > maxVertexFloatCount T
      then Inl (PanicTooManyVertices (maxVertexFloatCount T) (length vs))
      else
        let (split, q4) = accumulate T q vs es
        in case commandQueue_prependPreservedUniforms T q4 uniforms sh dst srcs
                  dstRegion srcRegions of
             Inl p \<Rightarrow> Inl p
           | Inr (u1, off, q5) \<Rightarrow>
               (let u2 = FilterUniformVariables D sh u1;
                    q6 = q5\<lparr>uint32sBuffer := store_window (uint32sBuffer q5) off u2\<rparr>
                in mergeOrAppend D split q6 dst srcs vs es bl dstRegion sh u2 fr))"

definition Enqueue :: "commandQueue \<Rightarrow> command \<Rightarrow> commandQueue" where
  "Enqueue q c = q\<lparr>commands := commands q @ [c]\<rparr>"

subsection \<open>The graphics driver and the flush on the render thread\<close>

text \<open>
  The driver is an opaque service. Its state has any type \<open>'d\<close>; each operation
  returns an error or nil, and the next state. \<open>Exec\<close> is the execution of one
  command against the driver (\<^verbatim>\<open>c.Exec(q, graphicsDriver, indexOffset)\<close>), whose code
  is in another file of the package.
\<close>

record 'd graphicsDriver =
  Begin :: "'d \<Rightarrow> error option \<times> 'd"
  End :: "bool \<Rightarrow> 'd \<Rightarrow> error option \<times> 'd"
  SetVertices :: "float32 list \<Rightarrow> u32 list \<Rightarrow> 'd \<Rightarrow> error option \<times> 'd"
  Exec :: "command \<Rightarrow> commandQueue \<Rightarrow> nat \<Rightarrow> 'd \<Rightarrow> error option \<times> 'd"

text \<open>What a flush does to the outside, in order.\<close>

datatype call =
    CallBegin
  | CallEnd bool
  | CallSetVertices "float32 list" "u32 list"
  | CallExec command nat
  | CallFinalizer nat

record 'd backend =
  drv_state :: 'd
  trace :: "call list"

definition callBegin :: "'d graphicsDriver \<Rightarrow> 'd backend \<Rightarrow> error option \<times> 'd backend" where
  "callBegin G b =
     (let (r, s) = Begin G (drv_state b)
      in (r, \<lparr> drv_state = s, trace = trace b @ [CallBegin] \<rparr>))"

definition callEnd :: "'d graphicsDriver \<Rightarrow> bool \<Rightarrow> 'd backend \<Rightarrow> error option \<times> 'd backend" where
  "callEnd G present b =
     (let (r, s) = End G present (drv_state b)
      in (r, \<lparr> drv_state = s, trace = trace b @ [CallEnd present] \<rparr>))"

definition callSetVertices ::
  "'d graphicsDriver \<Rightarrow> float32 list \<Rightarrow> u32 list \<Rightarrow> 'd backend \<Rightarrow> error option \<times> 'd backend" where
  "callSetVertices G vs es b =
     (let (r, s) = SetVertices G vs es (drv_state b)
      in (r, \<lparr> drv_state = s, trace = trace b @ [CallSetVertices vs es] \<rparr>))"

definition callExec ::
  "'d graphicsDriver \<Rightarrow> commandQueue \<Rightarrow> command \<Rightarrow> nat \<Rightarrow> 'd backend
     \<Rightarrow> error option \<times> 'd backend" where
  "callExec G q c indexOffset b =
     (let (r, s) = Exec G c q indexOffset (drv_state b)
      in (r, \<lparr> drv_state = s, trace = trace b @ [CallExec c indexOffset] \<rparr>))"

text \<open>
  The inner loop of \<^verbatim>\<open>flush\<close> that measures a run: it returns \<^verbatim>\<open>nv\<close>, \<^verbatim>\<open>ne\<close> and
  \<^verbatim>\<open>nc\<close>.
\<close>

fun countRun :: "platform \<Rightarrow> command list \<Rightarrow> nat \<Rightarrow> nat \<Rightarrow> nat \<Rightarrow> nat \<times> nat \<times> nat" where
  "countRun T [] nv ne nc = (nv, ne, nc)"
| "countRun T (DrawTrianglesCmd dtc # cs) nv ne nc =
     (if nc > 0 \<and> mustUseDifferentVertexBuffer T (nv + numVertices dtc)
      then (nv, ne, nc)
      else countRun T cs (nv + numVertices dtc) (ne + numIndices dtc) (nc + 1))"
| "countRun T (OtherCmd k # cs) nv ne nc = countRun T cs nv ne (nc + 1)"

text \<open>The loop over \<^verbatim>\<open>cs[:nc]\<close> that executes the commands of a run.\<close>

fun execRun ::
  "'d graphicsDriver \<Rightarrow> commandQueue \<Rightarrow> command list \<Rightarrow> nat \<Rightarrow> 'd backend
     \<Rightarrow> error option \<times> 'd backend" where
  "execRun G q [] indexOffset b = (None, b)"
| "execRun G q (c # cs) indexOffset b =
     (case callExec G q c indexOffset b of
        (Some e, b1) \<Rightarrow> (Some e, b1)
      | (None, b1) \<Rightarrow>
          execRun G q cs
            (case c of
               DrawTrianglesCmd dtc \<Rightarrow> indexOffset + numIndices dtc
             | OtherCmd k \<Rightarrow> indexOffset)
            b1)"

text \<open>How the body of \<^verbatim>\<open>flush\<close> ends: it falls through, returns an error, or panics.\<close>

datatype body_result = BodyOk | BodyErr error | BodyPanic panic

text \<open>
  The upload of a run: \<^verbatim>\<open>if 0 < ne { SetVertices(vs[:nv], es[:ne]); es = es[ne:];
  vs = vs[nv:] }\<close>. A window beyond the length of the slice is a panic of the model.
\<close>

definition uploadRun ::
  "'d graphicsDriver \<Rightarrow> float32 list \<Rightarrow> u32 list \<Rightarrow> nat \<Rightarrow> nat \<Rightarrow> 'd backend
     \<Rightarrow> body_result \<times> float32 list \<times> u32 list \<times> 'd backend" where
  "uploadRun G vs es nv ne b =
     (if 0 < ne
      then (if nv > length vs \<or> ne > length es then (BodyPanic PanicSliceBounds, vs, es, b)
            else (case callSetVertices G (take nv vs) (take ne es) b of
                    (Some e, b1) \<Rightarrow> (BodyErr e, vs, es, b1)
                  | (None, b1) \<Rightarrow> (BodyOk, drop nv vs, drop ne es, b1)))
      else (BodyOk, vs, es, b))"

lemma countRun_mono: "countRun T cs nv ne nc = (a, b, c) \<Longrightarrow> nc \<le> c"
proof (induction T cs nv ne nc rule: countRun.induct)
  case (2 T dtc cs nv ne nc)
  then show ?case by (auto split: if_splits)
qed auto

lemma countRun_le_length: "countRun T cs nv ne nc = (a, b, c) \<Longrightarrow> c \<le> nc + length cs"
proof (induction T cs nv ne nc rule: countRun.induct)
  case (2 T dtc cs nv ne nc)
  then show ?case by (auto split: if_splits)
qed auto

lemma countRun_pos:
  assumes "cs \<noteq> []" and "countRun T cs 0 0 0 = (a, b, c)"
  shows "0 < c"
proof (cases cs)
  case Nil
  with assms show ?thesis by simp
next
  case (Cons x xs)
  show ?thesis
  proof (cases x)
    case (DrawTrianglesCmd dtc)
    with Cons assms have "countRun T xs (numVertices dtc) (numIndices dtc) 1 = (a, b, c)"
      by simp
    then have "1 \<le> c" by (rule countRun_mono)
    then show ?thesis by simp
  next
    case (OtherCmd k)
    with Cons assms have "countRun T xs 0 0 1 = (a, b, c)" by simp
    then have "1 \<le> c" by (rule countRun_mono)
    then show ?thesis by simp
  qed
qed

lemma countRun_drop_less:
  assumes "cs \<noteq> []" and "(a, b, c) = countRun T cs 0 0 0"
  shows "length cs - c < length cs"
proof -
  from assms(2) have "countRun T cs 0 0 0 = (a, b, c)" by simp
  with assms(1) have "0 < c" by (rule countRun_pos)
  with assms(1) show ?thesis by simp
qed

text \<open>The outer loop \<^verbatim>\<open>for len(cs) > 0\<close>.\<close>

function flushRuns ::
  "platform \<Rightarrow> 'd graphicsDriver \<Rightarrow> commandQueue \<Rightarrow> command list \<Rightarrow> float32 list
     \<Rightarrow> u32 list \<Rightarrow> 'd backend \<Rightarrow> body_result \<times> 'd backend" where
  "flushRuns T G q cs vs es b =
     (if cs = [] then (BodyOk, b)
      else
        (case countRun T cs 0 0 0 of
           (nv, ne, nc) \<Rightarrow>
             (case uploadRun G vs es nv ne b of
                (BodyOk, vs1, es1, b1) \<Rightarrow>
                  (case execRun G q (take nc cs) 0 b1 of
                     (Some e, b2) \<Rightarrow> (BodyErr e, b2)
                   | (None, b2) \<Rightarrow> flushRuns T G q (drop nc cs) vs1 es1 b2)
              | (BodyErr e, vs1, es1, b1) \<Rightarrow> (BodyErr e, b1)
              | (BodyPanic p, vs1, es1, b1) \<Rightarrow> (BodyPanic p, b1))))"
  by pat_completeness auto
termination
  by (relation "measure (\<lambda>(T, G, q, cs, vs, es, b). length cs)")
    (auto intro: countRun_drop_less)

declare flushRuns.simps [simp del]

text \<open>The records of the draw commands go back to the pool, in the order of the queue.\<close>

fun releaseCommands :: "drawTrianglesCommand list \<Rightarrow> command list \<Rightarrow> drawTrianglesCommand list" where
  "releaseCommands p [] = p"
| "releaseCommands p (DrawTrianglesCmd c # cs) =
     releaseCommands (drawTrianglesCommandPool_put p c) cs"
| "releaseCommands p (OtherCmd k # cs) = releaseCommands p cs"

definition runFinalizers :: "nat list \<Rightarrow> 'd backend \<Rightarrow> 'd backend" where
  "runFinalizers fs b = b\<lparr>trace := trace b @ map CallFinalizer fs\<rparr>"

text \<open>
  The deferred function of \<^verbatim>\<open>flush\<close>: it calls \<^verbatim>\<open>End\<close>, then releases and clears.
  The result is the error of \<^verbatim>\<open>End\<close>, the queue and the backend.
\<close>

definition flush_deferred ::
  "'d graphicsDriver \<Rightarrow> commandQueue \<Rightarrow> bool \<Rightarrow> 'd backend
     \<Rightarrow> error option \<times> commandQueue \<times> 'd backend" where
  "flush_deferred G q endFrame b =
     (let (err1, b1) = callEnd G endFrame b;
          q1 = q\<lparr> drawTrianglesCommandPool :=
                    releaseCommands (drawTrianglesCommandPool q) (commands q),
                  commands := [], vertices := [], indices := [],
                  tmpNumVertexFloats := 0 \<rparr>
      in if endFrame
         then (err1,
               q1\<lparr> uint32sBuffer := reset (uint32sBuffer q1), finalizers := [] \<rparr>,
               runFinalizers (finalizers q1) b1)
         else (err1, q1, b1))"

datatype flush_result = Returned "error option" | Panicked panic

text \<open>
  \<^verbatim>\<open>commandQueue.flush\<close>. A panic of the body still runs the deferred function and
  then goes on; an error of the body is kept, otherwise the error of \<^verbatim>\<open>End\<close> is
  returned.
\<close>

definition flush ::
  "platform \<Rightarrow> 'd graphicsDriver \<Rightarrow> commandQueue \<Rightarrow> bool \<Rightarrow> 'd backend
     \<Rightarrow> flush_result \<times> commandQueue \<times> 'd backend" where
  "flush T G q endFrame b =
     (if length (commands q) = 0 \<and> \<not> endFrame then (Returned None, q, b)
      else
        (case callBegin G b of
           (Some e, b1) \<Rightarrow> (Returned (Some e), q, b1)
         | (None, b1) \<Rightarrow>
             (case flushRuns T G q (commands q) (vertices q) (indices q) b1 of
                (r, b2) \<Rightarrow>
                  (case flush_deferred G q endFrame b2 of
                     (err1, q1, b3) \<Rightarrow>
                       ((case r of
                           BodyOk \<Rightarrow> Returned err1
                         | BodyErr e \<Rightarrow> Returned (Some e)
                         | BodyPanic p \<Rightarrow> Panicked p),
                        q1, b3)))))"

subsection \<open>Flush, the pool of queues and the manager\<close>

text \<open>The decision of \<^verbatim>\<open>Flush\<close> between a synchronous and an asynchronous run.\<close>

fun anyNeedsSync :: "deps \<Rightarrow> command list \<Rightarrow> bool" where
  "anyNeedsSync D [] = False"
| "anyNeedsSync D (c # cs) = (if NeedsSync D c then True else anyNeedsSync D cs)"

definition flushIsSync :: "deps \<Rightarrow> bool \<Rightarrow> commandQueue \<Rightarrow> bool \<Rightarrow> bool" where
  "flushIsSync D vsyncEnabled q endFrame =
     (let sync = (endFrame \<and> vsyncEnabled)
      in if \<not> sync then anyNeedsSync D (commands q) else sync)"

datatype flush_mode = Synchronous | Asynchronous

text \<open>
  Modelled from the spec: \<^verbatim>\<open>runOnRenderThread(f, sync)\<close>, whose code is in another
  file of the package, runs the closure on the render thread; the caller waits for it
  when \<open>sync\<close> holds and goes on at once otherwise. The model applies the closure in
  both cases and records it: \<open>mode\<close> is \<open>None\<close> when nothing was handed to the
  render thread. The state of an asynchronous flush is the state once the closure has
  finished. \<open>ret\<close> is the value that \<^verbatim>\<open>Flush\<close> returns to its caller, \<open>crashed\<close> a
  panic of the closure (which ends the program), and \<open>pooled\<close> tells that the queue
  went back to the pool of the manager.
\<close>

record 'd flushed =
  ret :: "error option"
  crashed :: "panic option"
  queue :: commandQueue
  backend_after :: "'d backend"
  mode :: "flush_mode option"
  pooled :: bool

definition Flush ::
  "platform \<Rightarrow> deps \<Rightarrow> 'd graphicsDriver \<Rightarrow> bool \<Rightarrow> commandQueue \<Rightarrow> bool \<Rightarrow> 'd backend
     \<Rightarrow> 'd flushed" where
  "Flush T D G vsyncEnabled q endFrame b =
     (case err q of
        Some e \<Rightarrow>
          \<lparr> ret = Some e, crashed = None, queue = q, backend_after = b, mode = None,
            pooled = False \<rparr>
      | None \<Rightarrow>
          (let sync = flushIsSync D vsyncEnabled q endFrame;
               m = (if sync then Synchronous else Asynchronous)
           in case flush T G q endFrame b of
                (Panicked p, q1, b1) \<Rightarrow>
                  \<lparr> ret = None, crashed = Some p, queue = q1, backend_after = b1,
                    mode = Some m, pooled = False \<rparr>
              | (Returned (Some e), q1, b1) \<Rightarrow>
                  (if sync
                   then \<lparr> ret = Some e, crashed = None, queue = q1, backend_after = b1,
                          mode = Some m, pooled = False \<rparr>
                   else \<lparr> ret = None, crashed = None, queue = q1\<lparr>err := Some e\<rparr>,
                          backend_after = b1, mode = Some m, pooled = False \<rparr>)
              | (Returned None, q1, b1) \<Rightarrow>
                  \<lparr> ret = None, crashed = None, queue = q1, backend_after = b1,
                    mode = Some m, pooled = True \<rparr>))"

text \<open>The loop of \<^verbatim>\<open>commandQueuePool.get\<close> over the cache: the first stored error.\<close>

fun firstStoredError :: "commandQueue list \<Rightarrow> error option" where
  "firstStoredError [] = None"
| "firstStoredError (q # qs) =
     (case err q of Some e \<Rightarrow> Some e | None \<Rightarrow> firstStoredError qs)"

definition commandQueuePool_get ::
  "commandQueue list \<Rightarrow> (error + commandQueue) \<times> commandQueue list" where
  "commandQueuePool_get cache =
     (if length cache = 0 then (Inr newCommandQueue, cache)
      else (case firstStoredError cache of
              Some e \<Rightarrow> (Inl e, cache)
            | None \<Rightarrow> (Inr (cache ! (length cache - 1)), take (length cache - 1) cache)))"

definition commandQueuePool_put :: "commandQueue list \<Rightarrow> commandQueue \<Rightarrow> commandQueue list" where
  "commandQueuePool_put cache q = cache @ [q]"

record commandQueueManager =
  pool :: "commandQueue list"
  current :: "commandQueue option"

text \<open>
  \<^verbatim>\<open>commandQueueManager.flush\<close>: the result, the manager and the backend.
\<close>

definition commandQueueManager_flush ::
  "platform \<Rightarrow> deps \<Rightarrow> 'd graphicsDriver \<Rightarrow> bool \<Rightarrow> commandQueueManager \<Rightarrow> bool
     \<Rightarrow> 'd backend \<Rightarrow> flush_result \<times> commandQueueManager \<times> 'd backend" where
  "commandQueueManager_flush T D G vsyncEnabled c endFrame b =
     (let prev = current c
      in case commandQueuePool_get (pool c) of
           (Inl e, cache) \<Rightarrow> (Returned (Some e), c, b)
         | (Inr q, cache) \<Rightarrow>
             (let c1 = c\<lparr>pool := cache, current := Some q\<rparr>
              in case prev of
                   None \<Rightarrow> (Returned None, c1, b)
                 | Some p \<Rightarrow>
                     (let F = Flush T D G vsyncEnabled p endFrame b
                      in ((case crashed F of
                             Some p \<Rightarrow> Panicked p
                           | None \<Rightarrow> Returned (ret F)),
                          (if pooled F
                           then c1\<lparr>pool := commandQueuePool_put (pool c1) (queue F)\<rparr>
                           else c1),
                          backend_after F))))"

subsection \<open>Descriptions used in the statements\<close>

text \<open>
  The state in which the enqueue operations leave the last command: a draw command has
  at least one destination sub-region, and its vertex window is the tail of the vertex
  slice of the queue.
\<close>

definition lastCommandOk :: "commandQueue \<Rightarrow> bool" where
  "lastCommandOk q =
     (if commands q = [] then True
      else (case last (commands q) of
              DrawTrianglesCmd l \<Rightarrow>
                c_dstRegions l \<noteq> [] \<and> numVertices l \<le> length (vertices q)
                \<and> c_vertices l = drop (length (vertices q) - numVertices l) (vertices q)
            | OtherCmd k \<Rightarrow> True))"

text \<open>The record that lines 152 to 176 fill.\<close>

definition newDrawTrianglesCommand ::
  "deps \<Rightarrow> image \<Rightarrow> image option array4 \<Rightarrow> float32 list \<Rightarrow> u32 list \<Rightarrow> blend \<Rightarrow> rectangle
     \<Rightarrow> shader \<Rightarrow> u32 list \<Rightarrow> fillRule \<Rightarrow> drawTrianglesCommand" where
  "newDrawTrianglesCommand D dst srcs vs es bl dstRegion sh uniforms fr =
     \<lparr> c_dst = dst, c_srcs = srcs, c_vertices = vs, c_blend = bl,
       c_dstRegions = [\<lparr> Region = dstRegion, IndexCount = length es \<rparr>],
       c_shader = sh, c_uniforms = uniforms, c_fillRule = fr,
       c_firstCaller = debugFirstCaller D \<rparr>"

text \<open>The last command after lines 138 to 146 (used to state what a merge does).\<close>

definition mergedCommand ::
  "drawTrianglesCommand \<Rightarrow> float32 list \<Rightarrow> u32 list \<Rightarrow> rectangle \<Rightarrow> drawTrianglesCommand" where
  "mergedCommand l vs es dstRegion =
     l\<lparr> c_vertices := c_vertices l @ vs,
        c_dstRegions :=
          (if Region (last (c_dstRegions l)) = dstRegion
           then butlast (c_dstRegions l) @
                  [(last (c_dstRegions l))
                     \<lparr>IndexCount := IndexCount (last (c_dstRegions l)) + length es\<rparr>]
           else c_dstRegions l @ [\<lparr> Region = dstRegion, IndexCount = length es \<rparr>]) \<rparr>"

text \<open>The queue after lines 114 to 124.\<close>

definition accumulated :: "platform \<Rightarrow> commandQueue \<Rightarrow> float32 list \<Rightarrow> u32 list \<Rightarrow> commandQueue" where
  "accumulated T q vs es = snd (accumulate T q vs es)"

text \<open>The calls of \<^verbatim>\<open>End\<close> in a trace, and the draw command records of a queue.\<close>

fun isEndCall :: "call \<Rightarrow> bool" where
  "isEndCall (CallEnd present) = True"
| "isEndCall c = False"

fun drawCommandsOf :: "command list \<Rightarrow> drawTrianglesCommand list" where
  "drawCommandsOf [] = []"
| "drawCommandsOf (DrawTrianglesCmd c # cs) = c # drawCommandsOf cs"
| "drawCommandsOf (OtherCmd k # cs) = drawCommandsOf cs"

subsection \<open>A concrete scene\<close>

text \<open>
  A 64-bit target with eight floats per vertex and a 32-bit target; the float
  operations are given on the arguments that the scene uses (the default is a NaN).
\<close>

definition ex_float32_of_int :: "int \<Rightarrow> float32" where
  "ex_float32_of_int n =
     (if n = 0 then 0 else if n = 1 then 0x3F800000 else if n = 2 then 0x40000000
      else 0x7FC00000)"

definition ex_float32_div :: "float32 \<Rightarrow> float32 \<Rightarrow> float32" where
  "ex_float32_div a b =
     (if b = 0x3F800000 then a
      else if a = 0 \<and> b = 0x40000000 then 0
      else if a = 0x3F800000 \<and> b = 0x40000000 then 0x3F000000
      else if a = 0x40000000 \<and> b = 0x40000000 then 0x3F800000
      else 0x7FC00000)"

definition ex_platform :: platform where
  "ex_platform =
     \<lparr> uintBits = 64, VertexFloatCount = 8,
       float32_of_int = ex_float32_of_int, float32_div = ex_float32_div \<rparr>"

definition ex_platform32 :: platform where
  "ex_platform32 = ex_platform\<lparr>uintBits := 32\<rparr>"

text \<open>A command of another kind that needs synchronisation: a pixel readback.\<close>

definition ex_readPixels :: command where
  "ex_readPixels = OtherCmd 1"

definition ex_deps :: deps where
  "ex_deps =
     \<lparr> CanMergeWithDrawTrianglesCommand = specCanMerge,
       FilterUniformVariables = (\<lambda>sh u. u),
       NeedsSync = (\<lambda>c. c = ex_readPixels),
       debugFirstCaller = [] \<rparr>"

definition ex_src :: image where
  "ex_src = \<lparr> image_id = 1, internalWidth = 2, internalHeight = 2 \<rparr>"

definition ex_dst :: image where
  "ex_dst = \<lparr> image_id = 2, internalWidth = 2, internalHeight = 2 \<rparr>"

definition ex_shader :: shader where
  "ex_shader = \<lparr> shader_id = 1, shader_unit = Texels \<rparr>"

definition ex_rect :: rectangle where
  "ex_rect = \<lparr> MinX = 0, MinY = 0, MaxX = 1, MaxY = 1 \<rparr>"

definition ex_norect :: rectangle where
  "ex_norect = \<lparr> MinX = 0, MinY = 0, MaxX = 0, MaxY = 0 \<rparr>"

definition ex_srcs :: "image option array4" where
  "ex_srcs = (Some ex_src, None, None, None)"

definition ex_srcRegions :: "rectangle array4" where
  "ex_srcRegions = (ex_rect, ex_norect, ex_norect, ex_norect)"

text \<open>The quad of the restoration tests: four vertices of eight floats, six indices.\<close>

definition ex_vs :: "float32 list" where
  "ex_vs =
     [0, 0, 0, 0, 0x3F800000, 0x3F800000, 0x3F800000, 0x3F800000,
      0x3F800000, 0, 0x3F800000, 0, 0x3F800000, 0x3F800000, 0x3F800000, 0x3F800000,
      0, 0x3F800000, 0, 0x3F800000, 0x3F800000, 0x3F800000, 0x3F800000, 0x3F800000,
      0x3F800000, 0x3F800000, 0x3F800000, 0x3F800000, 0x3F800000, 0x3F800000, 0x3F800000,
      0x3F800000]"

definition ex_es :: "u32 list" where
  "ex_es = [0, 1, 2, 1, 2, 3]"

definition ex_uniforms :: "u32 list" where
  "ex_uniforms =
     FilterUniformVariables ex_deps ex_shader
       (preservedUniforms ex_platform ex_shader ex_dst ex_srcs ex_rect ex_srcRegions @ [])"

definition ex_cmd :: drawTrianglesCommand where
  "ex_cmd =
     newDrawTrianglesCommand ex_deps ex_dst ex_srcs ex_vs ex_es (Blend 0) ex_rect ex_shader
       ex_uniforms FillRuleFillAll"

text \<open>The queue after one draw of the quad.\<close>

definition ex_queue1 :: commandQueue where
  "ex_queue1 =
     newCommandQueue
       \<lparr> commands := [DrawTrianglesCmd ex_cmd], vertices := ex_vs, indices := ex_es,
         tmpNumVertexFloats := 32 \<rparr>"

text \<open>
  A queue whose only draw holds eight floats less than the maximum of one vertex
  buffer.
\<close>

definition ex_queueFull :: commandQueue where
  "ex_queueFull =
     newCommandQueue
       \<lparr> commands :=
           [DrawTrianglesCmd
              (ex_cmd\<lparr>c_vertices := replicate (maxVertexFloatCount ex_platform - 8) 0\<rparr>)],
         vertices := replicate (maxVertexFloatCount ex_platform - 8) 0,
         indices := ex_es,
         tmpNumVertexFloats := maxVertexFloatCount ex_platform - 8 \<rparr>"

text \<open>
  Two drivers whose state counts the calls: one never fails, the other loses the device
  when a command is executed.
\<close>

definition ex_driver :: "nat graphicsDriver" where
  "ex_driver =
     \<lparr> Begin = (\<lambda>s. (None, Suc s)),
       End = (\<lambda>present s. (None, Suc s)),
       SetVertices = (\<lambda>vs es s. (None, Suc s)),
       Exec = (\<lambda>c q indexOffset s. (None, Suc s)) \<rparr>"

definition ex_deviceLost :: error where
  "ex_deviceLost = Error ''device lost''"

definition ex_failingDriver :: "nat graphicsDriver" where
  "ex_failingDriver = ex_driver\<lparr>Exec := (\<lambda>c q indexOffset s. (Some ex_deviceLost, Suc s))\<rparr>"

definition ex_beginFailingDriver :: "nat graphicsDriver" where
  "ex_beginFailingDriver = ex_driver\<lparr>Begin := (\<lambda>s. (Some ex_deviceLost, Suc s))\<rparr>"

text \<open>The queue after one draw, with an error stored by an earlier flush.\<close>

definition ex_queueErr :: commandQueue where
  "ex_queueErr = ex_queue1\<lparr>err := Some ex_deviceLost\<rparr>"

definition ex_backend :: "nat backend" where
  "ex_backend = \<lparr> drv_state = 0, trace = [] \<rparr>"

section \<open>The restorable images (package restorable)\<close>

text \<open>
  The package \<^verbatim>\<open>internal/restorable\<close> is present with its tests only. The helpers of
  the tests are embedded from \<^verbatim>\<open>images_test.go\<close>; the images and their restoration
  are modelled from the specification.
\<close>

subsection \<open>The comparison of colours in the tests\<close>

record rgba =
  chR :: "8 word"
  chG :: "8 word"
  chB :: "8 word"
  chA :: "8 word"

definition abs_int :: "int \<Rightarrow> int" where
  "abs_int x = (if x < 0 then - x else x)"

definition sameColors :: "rgba \<Rightarrow> rgba \<Rightarrow> int \<Rightarrow> bool" where
  "sameColors c1 c2 delta =
     (abs_int (uint (chR c1) - uint (chR c2)) \<le> delta \<and>
      abs_int (uint (chG c1) - uint (chG c2)) \<le> delta \<and>
      abs_int (uint (chB c1) - uint (chB c2)) \<le> delta \<and>
      abs_int (uint (chA c1) - uint (chA c2)) \<le> delta)"

subsection \<open>Managed images\<close>

type_synonym pixels = "rgba list"

datatype imageType = ImageTypeRegular | ImageTypeVolatile | ImageTypeScreen

text \<open>
  Modelled from the spec: a draw operation record, with its source images by
  identifier (weak references). The vertices, indices, blend mode, shader, uniform
  values and fill rule of the draw are one number, the pattern.
\<close>

record drawOperation =
  op_srcs :: "nat list"
  op_pattern :: nat

text \<open>
  Modelled from the spec: a managed image has a size, a type tag, a base-pixels cache
  (nullable), the list of the draw operations recorded since the base pixels were
  last materialised, and a stale flag.
\<close>

record managedImage =
  mi_width :: nat
  mi_height :: nat
  mi_type :: imageType
  basePixels :: "pixels option"
  drawHistory :: "drawOperation list"
  staleFlag :: bool

text \<open>
  Modelled from the spec: the graphics backend is an opaque service. What a draw of a
  pattern leaves in the destination texture is a function of the contents of the
  sources and of the destination (a fixed deterministic pattern); the rounding of a
  real GPU is outside the model.
\<close>

type_synonym gpu = "nat \<Rightarrow> pixels list \<Rightarrow> pixels \<Rightarrow> pixels"

text \<open>
  Modelled from the spec: the live managed images in the order of their creation, by
  identifier, and the textures of the backend, which a context loss takes away.
\<close>

record restorable =
  managed :: "(nat \<times> managedImage) list"
  textures :: "nat \<rightharpoonup> pixels"

definition emptyRestorable :: restorable where
  "emptyRestorable = \<lparr> managed = [], textures = Map.empty \<rparr>"

definition transparentBlack :: rgba where
  "transparentBlack = \<lparr> chR = 0, chG = 0, chB = 0, chA = 0 \<rparr>"

definition clearedPixels :: "nat \<Rightarrow> nat \<Rightarrow> pixels" where
  "clearedPixels w h = replicate (w * h) transparentBlack"

definition updateImage ::
  "nat \<Rightarrow> (managedImage \<Rightarrow> managedImage) \<Rightarrow> (nat \<times> managedImage) list
     \<Rightarrow> (nat \<times> managedImage) list" where
  "updateImage i f imgs = map (\<lambda>(k, img). if k = i then (k, f img) else (k, img)) imgs"

text \<open>Modelled from the spec: an image is created empty (cleared).\<close>

definition NewImage :: "restorable \<Rightarrow> nat \<Rightarrow> nat \<Rightarrow> nat \<Rightarrow> imageType \<Rightarrow> restorable" where
  "NewImage W i w h t =
     \<lparr> managed = managed W @
         [(i, \<lparr> mi_width = w, mi_height = h, mi_type = t, basePixels = None,
                drawHistory = [], staleFlag = False \<rparr>)],
       textures = (textures W)(i \<mapsto> clearedPixels w h) \<rparr>"

text \<open>
  Modelled from the spec: \<^verbatim>\<open>WritePixels(data, region)\<close> for the region that is the whole
  image. Empty data clears the image. The written pixels become the base pixels and
  supersede the history recorded so far.
\<close>

definition WritePixels :: "restorable \<Rightarrow> nat \<Rightarrow> pixels \<Rightarrow> restorable option" where
  "WritePixels W i data =
     (case map_of (managed W) i of
        None \<Rightarrow> None
      | Some img \<Rightarrow>
          (let p = (if data = [] then clearedPixels (mi_width img) (mi_height img) else data)
           in Some \<lparr> managed =
                        updateImage i
                          (\<lambda>m. m\<lparr>basePixels := Some p, drawHistory := [], staleFlag := False\<rparr>)
                          (managed W),
                      textures = (textures W)(i \<mapsto> p) \<rparr>))"

fun lookupAll :: "(nat \<rightharpoonup> pixels) \<Rightarrow> nat list \<Rightarrow> pixels list option" where
  "lookupAll tex [] = Some []"
| "lookupAll tex (s # ss) =
     (case tex s of
        None \<Rightarrow> None
      | Some p \<Rightarrow> (case lookupAll tex ss of None \<Rightarrow> None | Some ps \<Rightarrow> Some (p # ps)))"

text \<open>
  Modelled from the spec: \<^verbatim>\<open>DrawTriangles\<close> appends to the operation list of the
  target, marks the target stale, records the sources as dependencies, and the backend
  draws. A source or a target without a texture is an error.
\<close>

definition DrawTriangles ::
  "gpu \<Rightarrow> restorable \<Rightarrow> nat \<Rightarrow> nat list \<Rightarrow> nat \<Rightarrow> restorable option" where
  "DrawTriangles G W dst srcs pattern =
     (case map_of (managed W) dst of
        None \<Rightarrow> None
      | Some img \<Rightarrow>
          (case textures W dst of
             None \<Rightarrow> None
           | Some d \<Rightarrow>
               (case lookupAll (textures W) srcs of
                  None \<Rightarrow> None
                | Some ss \<Rightarrow>
                    Some \<lparr> managed =
                             updateImage dst
                               (\<lambda>m. m\<lparr>drawHistory := drawHistory m @
                                         [\<lparr> op_srcs = srcs, op_pattern = pattern \<rparr>],
                                       staleFlag := True\<rparr>)
                               (managed W),
                           textures = (textures W)(dst \<mapsto> G pattern ss d) \<rparr>)))"

text \<open>
  Modelled from the spec: the resolve step. The pixels of a stale image are read back
  from the backend into the base-pixel cache, and the operation history is discarded.
\<close>

definition resolveStale :: "(nat \<rightharpoonup> pixels) \<Rightarrow> nat \<times> managedImage \<Rightarrow> nat \<times> managedImage" where
  "resolveStale tex e =
     (case e of
        (i, img) \<Rightarrow>
          if staleFlag img
          then (case tex i of
                  None \<Rightarrow> (i, img)
                | Some p \<Rightarrow>
                    (i, img\<lparr>basePixels := Some p, drawHistory := [], staleFlag := False\<rparr>))
          else (i, img))"

definition ResolveStaleImages :: "restorable \<Rightarrow> restorable" where
  "ResolveStaleImages W = W\<lparr>managed := map (resolveStale (textures W)) (managed W)\<rparr>"

text \<open>Modelled from the spec: a context loss takes every texture of the backend.\<close>

definition contextLoss :: "restorable \<Rightarrow> restorable" where
  "contextLoss W = W\<lparr>textures := Map.empty\<rparr>"

text \<open>
  Modelled from the spec: the order of the restoration. A stale image has edges to the
  sources of its recorded draws, and is processed after they are restored; where no
  remaining image is ready (a cycle), the oldest remaining image is taken.
\<close>

definition ready :: "(nat \<times> managedImage) list \<Rightarrow> nat list \<Rightarrow> nat \<Rightarrow> bool" where
  "ready imgs done i =
     (case map_of imgs i of
        None \<Rightarrow> True
      | Some img \<Rightarrow>
          if staleFlag img
          then list_all (\<lambda>operation. list_all (\<lambda>s. s \<in> set done) (op_srcs operation))
                 (drawHistory img)
          else True)"

lemma find_remove1_shorter:
  assumes "find P xs = Some i"
  shows "length (remove1 i xs) < length xs"
proof -
  from assms have "i \<in> set xs" by (auto simp: find_Some_iff)
  then have "0 < length xs" by (rule length_pos_if_in_set)
  with \<open>i \<in> set xs\<close> show ?thesis by (simp add: length_remove1)
qed

function restoreOrder :: "(nat \<times> managedImage) list \<Rightarrow> nat list \<Rightarrow> nat list \<Rightarrow> nat list" where
  "restoreOrder imgs remaining done =
     (case remaining of
        [] \<Rightarrow> done
      | r # rs \<Rightarrow>
          (case find (ready imgs done) remaining of
             Some i \<Rightarrow> restoreOrder imgs (remove1 i remaining) (done @ [i])
           | None \<Rightarrow> restoreOrder imgs rs (done @ [r])))"
  by pat_completeness auto
termination
  by (relation "measure (\<lambda>(imgs, remaining, done). length remaining)")
    (auto intro: find_remove1_shorter split: if_splits)

declare restoreOrder.simps [simp del]

text \<open>
  Modelled from the spec: the replay of a recorded operation list against the restored
  sources, in the original order.
\<close>

fun replay :: "gpu \<Rightarrow> (nat \<rightharpoonup> pixels) \<Rightarrow> drawOperation list \<Rightarrow> pixels \<Rightarrow> pixels option" where
  "replay G tex [] p = Some p"
| "replay G tex (operation # ops) p =
     (case lookupAll tex (op_srcs operation) of
        None \<Rightarrow> None
      | Some ss \<Rightarrow> replay G tex ops (G (op_pattern operation) ss p))"

text \<open>
  Modelled from the spec: the restoration of one image. A Volatile image is cleared, a
  Screen image is recreated, a Regular image gets its base pixels (cleared when it has
  none) and, when it is stale, the replay of its history.
\<close>

definition restoreImage :: "gpu \<Rightarrow> restorable \<Rightarrow> nat \<Rightarrow> restorable option" where
  "restoreImage G W i =
     (case map_of (managed W) i of
        None \<Rightarrow> Some W
      | Some img \<Rightarrow>
          (let cleared = clearedPixels (mi_width img) (mi_height img)
           in case mi_type img of
                ImageTypeVolatile \<Rightarrow> Some (W\<lparr>textures := (textures W)(i \<mapsto> cleared)\<rparr>)
              | ImageTypeScreen \<Rightarrow> Some (W\<lparr>textures := (textures W)(i \<mapsto> cleared)\<rparr>)
              | ImageTypeRegular \<Rightarrow>
                  (let base = (case basePixels img of None \<Rightarrow> cleared | Some p \<Rightarrow> p)
                   in if staleFlag img
                      then (case replay G (textures W) (drawHistory img) base of
                              None \<Rightarrow> None
                            | Some p \<Rightarrow> Some (W\<lparr>textures := (textures W)(i \<mapsto> p)\<rparr>))
                      else Some (W\<lparr>textures := (textures W)(i \<mapsto> base)\<rparr>))))"

fun restoreInOrder :: "gpu \<Rightarrow> restorable \<Rightarrow> nat list \<Rightarrow> restorable option" where
  "restoreInOrder G W [] = Some W"
| "restoreInOrder G W (i # is) =
     (case restoreImage G W i of None \<Rightarrow> None | Some W1 \<Rightarrow> restoreInOrder G W1 is)"

text \<open>
  Modelled from the spec: \<^verbatim>\<open>RestoreIfNeeded\<close> after a context loss restores every live
  image, in the order of the dependencies; an error aborts the pass.
\<close>

definition RestoreIfNeeded :: "gpu \<Rightarrow> restorable \<Rightarrow> restorable option" where
  "RestoreIfNeeded G W =
     restoreInOrder G W (restoreOrder (managed W) (map fst (managed W)) [])"

subsection \<open>The chain of the test\<close>

text \<open>
  \<^verbatim>\<open>TestRestoreChain\<close>: \<open>num\<close> Regular images; image 0 gets its pixels by
  \<^verbatim>\<open>WritePixels\<close>, image \<open>i + 1\<close> is drawn from image \<open>i\<close> with one pattern.
\<close>

fun newImages :: "restorable \<Rightarrow> nat \<Rightarrow> nat \<Rightarrow> nat \<Rightarrow> restorable" where
  "newImages W 0 w h = W"
| "newImages W (Suc n) w h = NewImage (newImages W n w h) n w h ImageTypeRegular"

fun drawChain :: "gpu \<Rightarrow> restorable \<Rightarrow> nat \<Rightarrow> nat \<Rightarrow> restorable option" where
  "drawChain G W 0 pattern = Some W"
| "drawChain G W (Suc i) pattern =
     (case drawChain G W i pattern of
        None \<Rightarrow> None
      | Some W1 \<Rightarrow> DrawTriangles G W1 (Suc i) [i] pattern)"

definition buildChain ::
  "gpu \<Rightarrow> nat \<Rightarrow> nat \<Rightarrow> nat \<Rightarrow> pixels \<Rightarrow> nat \<Rightarrow> restorable option" where
  "buildChain G num w h data pattern =
     (case WritePixels (newImages emptyRestorable num w h) 0 data of
        None \<Rightarrow> None
      | Some W \<Rightarrow> drawChain G W (num - 1) pattern)"

section \<open>Properties\<close>

subsection \<open>Auxiliary facts\<close>

declare appendIndices_loop.simps [simp del]
declare roundUpPower2_loop.simps [simp del]

lemma appendIndices_loop_eq:
  "i \<le> length xs \<Longrightarrow>
   appendIndices_loop xs offset i = take i xs @ map (\<lambda>x. x + offset) (drop i xs)"
proof (induction xs offset i rule: appendIndices_loop.induct)
  case (1 xs offset i)
  show ?case
  proof (cases "i < length xs")
    case True
    have "appendIndices_loop xs offset i
        = appendIndices_loop (xs[i := xs ! i + offset]) offset (Suc i)"
      using True by (subst appendIndices_loop.simps) simp
    also have "\<dots> = take (Suc i) (xs[i := xs ! i + offset])
        @ map (\<lambda>x. x + offset) (drop (Suc i) (xs[i := xs ! i + offset]))"
      using True by (intro "1.IH") simp_all
    also have "\<dots> = take i xs @ [xs ! i + offset] @ map (\<lambda>x. x + offset) (drop (Suc i) xs)"
      using True by (simp add: take_Suc_conv_app_nth)
    also have "\<dots> = take i xs @ map (\<lambda>x. x + offset) (drop i xs)"
      using True by (simp add: Cons_nth_drop_Suc [symmetric])
    finally show ?thesis .
  next
    case False
    with 1(2) have "i = length xs" by simp
    then show ?thesis by (subst appendIndices_loop.simps) simp
  qed
qed

lemma indices_appendIndices:
  "indices (appendIndices q es offset) = indices q @ map (\<lambda>x. x + offset) es"
  by (simp add: appendIndices_def Let_def appendIndices_loop_eq)

lemma is32bit_64: "uintBits T = 64 \<Longrightarrow> is32bit T = 0"
  by (simp add: is32bit_def drop_bit_eq_div)

lemma is32bit_32: "uintBits T = 32 \<Longrightarrow> is32bit T = 1"
  by (simp add: is32bit_def drop_bit_eq_div)

lemma MaxVertexCount_64: "uintBits T = 64 \<Longrightarrow> MaxVertexCount T = 2 ^ 32 - 1"
  by (simp add: MaxVertexCount_def is64bit_def is32bit_64 MaxUint32_def)

lemma MaxVertexCount_32: "uintBits T = 32 \<Longrightarrow> MaxVertexCount T = MaxInt32 div VertexFloatCount T"
  by (simp add: MaxVertexCount_def is64bit_def is32bit_32)

lemma maxVFC_32: "uintBits T = 32 \<Longrightarrow> maxVertexFloatCount T \<le> MaxInt T"
  by (simp add: maxVertexFloatCount_def MaxVertexCount_32 MaxInt_def MaxInt32_def)

lemma maxVFC_64: "uintBits T = 64 \<Longrightarrow> VertexFloatCount T \<le> 2 ^ 31 \<Longrightarrow> maxVertexFloatCount T \<le> MaxInt T"
proof -
  assume a: "uintBits T = 64" and b: "VertexFloatCount T \<le> 2 ^ 31"
  have "(2 ^ 32 - 1) * VertexFloatCount T \<le> (2 ^ 32 - 1) * (2::nat) ^ 31"
    using b by (rule mult_le_mono2)
  also have "\<dots> \<le> 2 ^ 63 - 1" by simp
  finally show ?thesis using a by (simp add: maxVertexFloatCount_def MaxVertexCount_64 MaxInt_def)
qed


lemma roundUpPower2_loop_ge: "0 < p2 \<Longrightarrow> x \<le> roundUpPower2_loop p2 x"
proof (induction p2 x rule: roundUpPower2_loop.induct)
  case (1 p2 x)
  show ?case
  proof (cases "p2 < x")
    case True
    with 1 show ?thesis by (subst roundUpPower2_loop.simps) simp
  next
    case False
    then show ?thesis by (subst roundUpPower2_loop.simps) simp
  qed
qed

lemma roundUpPower2_ge: "x \<le> roundUpPower2 x"
  by (simp add: roundUpPower2_def roundUpPower2_loop_ge)

lemma alloc_window_length:
  assumes "alloc b n = (off, b')"
  shows "length (window b' off n) = n"
proof (cases "buf_len b + n > length (buf_data b)")
  case True
  have "n \<le> roundUpPower2 (buf_len b + n)"
    using roundUpPower2_ge [of "buf_len b + n"] by simp
  with True assms show ?thesis
    by (auto simp: alloc_def window_def Let_def max_def)
next
  case False
  with assms show ?thesis
    by (auto simp: alloc_def window_def Let_def)
qed

lemma update46_append:
  fixes p :: "'a list"
  assumes "length p = 46"
  shows "(p @ r)[0 := v0, 1 := v1, 2 := v2, 3 := v3, 4 := v4, 5 := v5, 6 := v6, 7 := v7, 8 := v8,
      9 := v9, 10 := v10, 11 := v11, 12 := v12, 13 := v13, 14 := v14, 15 := v15, 16 := v16,
      17 := v17, 18 := v18, 19 := v19, 20 := v20, 21 := v21, 22 := v22, 23 := v23, 24 := v24,
      25 := v25, 26 := v26, 27 := v27, 28 := v28, 29 := v29, 30 := v30, 31 := v31, 32 := v32,
      33 := v33, 34 := v34, 35 := v35, 36 := v36, 37 := v37, 38 := v38, 39 := v39, 40 := v40,
      41 := v41, 42 := v42, 43 := v43, 44 := v44, 45 := v45]
    = [v0, v1, v2, v3, v4, v5, v6, v7, v8, v9, v10, v11, v12, v13, v14, v15, v16, v17, v18,
       v19, v20, v21, v22, v23, v24, v25, v26, v27, v28, v29, v30, v31, v32, v33, v34, v35,
       v36, v37, v38, v39, v40, v41, v42, v43, v44, v45] @ r"
  using assms by (clarsimp simp: eval_nat_numeral length_Suc_conv)

lemma length_preservedUniforms:
  "length (preservedUniforms T sh dst srcs dstRegion srcRegions) = 46"
  by (cases srcs; cases srcRegions) auto

lemma prependPreservedUniforms_eq:
  assumes "46 \<le> length w"
  shows "prependPreservedUniforms T w sh dst srcs dstRegion srcRegions
     = Inr (preservedUniforms T sh dst srcs dstRegion srcRegions @ drop 46 w)"
proof -
  obtain s0 s1 s2 s3 where srcs: "srcs = (s0, s1, s2, s3)" by (cases srcs) auto
  obtain r0 r1 r2 r3 where regs: "srcRegions = (r0, r1, r2, r3)" by (cases srcRegions) auto
  have w: "w = take 46 w @ drop 46 w" by simp
  have len: "length (take 46 w) = 46" using assms by simp
  have ge: "\<not> length w \<le> PreservedUniformDwordCount - 1"
    using assms by (simp add: PreservedUniformDwordCount_def)
  show ?thesis
    unfolding srcs regs prependPreservedUniforms.simps preservedUniforms.simps Let_def
    apply (simp only: ge if_False)
    apply (subst w)
    apply (simp only: update46_append [OF len])
    done
qed

lemma cq_prepend_eq:
  assumes "alloc (uint32sBuffer q) (length uniforms + 46) = (off, b)"
  shows "commandQueue_prependPreservedUniforms T q uniforms sh dst srcs dstRegion srcRegions
     = Inr (preservedUniforms T sh dst srcs dstRegion srcRegions @ uniforms, off,
            q\<lparr>uint32sBuffer := store_window b off
                 (preservedUniforms T sh dst srcs dstRegion srcRegions @ uniforms)\<rparr>)"
proof -
  let ?n = "length uniforms + 46"
  have wl: "length (window b off ?n) = ?n" using assms by (rule alloc_window_length)
  have c: "copy_at (window b off ?n) PreservedUniformDwordCount uniforms
      = Inr (take 46 (window b off ?n) @ uniforms)"
    using wl by (simp add: copy_at_def PreservedUniformDwordCount_def)
  have l2: "46 \<le> length (take 46 (window b off ?n) @ uniforms)" using wl by simp
  have d: "drop 46 (take 46 (window b off ?n) @ uniforms) = uniforms" using wl by simp
  show ?thesis
    unfolding commandQueue_prependPreservedUniforms_def Let_def
    by (simp add: assms PreservedUniformDwordCount_def c [unfolded PreservedUniformDwordCount_def]
        prependPreservedUniforms_eq [OF l2] d wl del: prependPreservedUniforms.simps preservedUniforms.simps)
qed

lemma list_update_last: "xs \<noteq> [] \<Longrightarrow> xs[length xs - 1 := y] = butlast xs @ [y]"
  by (induction xs rule: rev_induct) simp_all

lemma nth_last: "xs \<noteq> [] \<Longrightarrow> xs ! (length xs - 1) = last xs"
  by (simp add: last_conv_nth)

lemma appendIndices_eq:
  "appendIndices q es offset = q\<lparr>indices := indices q @ map (\<lambda>x. x + offset) es\<rparr>"
  by (simp add: appendIndices_def Let_def appendIndices_loop_eq)

lemma accumulate_eq:
  "accumulate T q vs es =
     (mustUseDifferentVertexBuffer T (tmpNumVertexFloats q + length vs),
      q\<lparr> vertices := vertices q @ vs,
         indices := indices q @
           map (\<lambda>x. x + of_nat ((if mustUseDifferentVertexBuffer T (tmpNumVertexFloats q + length vs)
                                   then 0 else tmpNumVertexFloats q) div VertexFloatCount T)) es,
         tmpNumVertexFloats :=
           (if mustUseDifferentVertexBuffer T (tmpNumVertexFloats q + length vs)
            then 0 else tmpNumVertexFloats q) + length vs \<rparr>)"
proof (cases "mustUseDifferentVertexBuffer T (tmpNumVertexFloats q + length vs)")
  case True
  then show ?thesis
    unfolding accumulate_def Let_def appendIndices_eq by simp
next
  case False
  then show ?thesis
    unfolding accumulate_def Let_def appendIndices_eq by simp
qed

lemma Enqueue_eq:
  assumes "length vs \<le> maxVertexFloatCount T"
  shows "\<exists>buf. EnqueueDrawTrianglesCommand T D q dst srcs vs es bl dstRegion srcRegions sh uniforms fr
     = mergeOrAppend D (fst (accumulate T q vs es))
         ((snd (accumulate T q vs es))\<lparr>uint32sBuffer := buf\<rparr>) dst srcs vs es bl dstRegion sh
         (FilterUniformVariables D sh
            (preservedUniforms T sh dst srcs dstRegion srcRegions @ uniforms)) fr"
proof -
  obtain split q4 where a: "accumulate T q vs es = (split, q4)" by (cases "accumulate T q vs es")
  obtain off b where al: "alloc (uint32sBuffer q4) (length uniforms + 46) = (off, b)"
    by (cases "alloc (uint32sBuffer q4) (length uniforms + 46)")
  have "EnqueueDrawTrianglesCommand T D q dst srcs vs es bl dstRegion srcRegions sh uniforms fr
     = mergeOrAppend D split
         (q4\<lparr>uint32sBuffer := store_window (store_window b off
              (preservedUniforms T sh dst srcs dstRegion srcRegions @ uniforms)) off
              (FilterUniformVariables D sh
                (preservedUniforms T sh dst srcs dstRegion srcRegions @ uniforms))\<rparr>)
          dst srcs vs es bl dstRegion sh
         (FilterUniformVariables D sh
            (preservedUniforms T sh dst srcs dstRegion srcRegions @ uniforms)) fr"
    using assms
    by (simp add: EnqueueDrawTrianglesCommand_def a cq_prepend_eq [OF al] Let_def
        del: preservedUniforms.simps)
  then show ?thesis using a by auto
qed

lemma mergeOrAppend_fields:
  assumes "mergeOrAppend D split q dst srcs vs es bl dstRegion sh u fr = Inr q'"
  shows "vertices q' = vertices q \<and> indices q' = indices q
     \<and> tmpNumVertexFloats q' = tmpNumVertexFloats q \<and> err q' = err q
     \<and> finalizers q' = finalizers q \<and> uint32sBuffer q' = uint32sBuffer q"
  using assms
  by (auto simp: mergeOrAppend_def appendNewCommand_def
      split: if_splits command.splits sum.splits)

lemma Enqueue_fields:
  assumes "EnqueueDrawTrianglesCommand T D q dst srcs vs es bl dstRegion srcRegions sh uniforms fr
     = Inr q'"
  shows "vertices q' = vertices q @ vs"
    and "indices q' = indices q @
           map (\<lambda>x. x + of_nat ((if mustUseDifferentVertexBuffer T (tmpNumVertexFloats q + length vs)
                                   then 0 else tmpNumVertexFloats q) div VertexFloatCount T)) es"
    and "tmpNumVertexFloats q' =
           (if mustUseDifferentVertexBuffer T (tmpNumVertexFloats q + length vs)
            then 0 else tmpNumVertexFloats q) + length vs"
    and "err q' = err q" and "finalizers q' = finalizers q"
proof -
  have le: "length vs \<le> maxVertexFloatCount T"
    using assms by (auto simp: EnqueueDrawTrianglesCommand_def split: if_splits)
  from Enqueue_eq [OF le, of D q dst srcs es bl dstRegion srcRegions sh uniforms fr] assms
  obtain buf where m: "mergeOrAppend D (fst (accumulate T q vs es))
         ((snd (accumulate T q vs es))\<lparr>uint32sBuffer := buf\<rparr>) dst srcs vs es bl dstRegion sh
         (FilterUniformVariables D sh
            (preservedUniforms T sh dst srcs dstRegion srcRegions @ uniforms)) fr = Inr q'"
    by auto
  note f = mergeOrAppend_fields [OF m]
  show "vertices q' = vertices q @ vs" using f by (simp add: accumulate_eq)
  show "indices q' = indices q @
           map (\<lambda>x. x + of_nat ((if mustUseDifferentVertexBuffer T (tmpNumVertexFloats q + length vs)
                                   then 0 else tmpNumVertexFloats q) div VertexFloatCount T)) es"
    using f by (simp add: accumulate_eq)
  show "tmpNumVertexFloats q' =
           (if mustUseDifferentVertexBuffer T (tmpNumVertexFloats q + length vs)
            then 0 else tmpNumVertexFloats q) + length vs"
    using f by (simp add: accumulate_eq)
  show "err q' = err q" using f by (simp add: accumulate_eq)
  show "finalizers q' = finalizers q" using f by (simp add: accumulate_eq)
qed

lemma list_update_last': "xs \<noteq> [] \<Longrightarrow> xs[length xs - Suc 0 := y] = butlast xs @ [y]"
  using list_update_last [of xs y] by simp

lemma nth_last': "xs \<noteq> [] \<Longrightarrow> xs ! (length xs - Suc 0) = last xs"
  using nth_last [of xs] by simp

lemma appendNewCommand_eq:
  assumes "vertices q = pre @ vs"
  shows "appendNewCommand D q dst srcs vs es bl dstRegion sh u fr
     = Inr (q\<lparr> drawTrianglesCommandPool :=
                 drawTrianglesCommandPool_get (drawTrianglesCommandPool q),
               commands := commands q @
                 [DrawTrianglesCmd (newDrawTrianglesCommand D dst srcs vs es bl dstRegion sh u fr)] \<rparr>)"
  using assms
  by (simp add: appendNewCommand_def lastVertices_def newDrawTrianglesCommand_def)

lemma mergeIntoLast_eq:
  assumes v: "vertices q = pre @ vs"
    and r: "c_dstRegions l \<noteq> []"
    and n: "numVertices l \<le> length pre"
    and t: "c_vertices l = drop (length pre - numVertices l) pre"
  shows "mergeIntoLast q l (length vs) (length es) dstRegion
     = Inr (mergedCommand l vs es dstRegion)"
proof -
  have lv: "lastVertices q (length vs + numVertices l) = Inr (c_vertices l @ vs)"
    using v n t by (simp add: lastVertices_def)
  show ?thesis
    unfolding mergeIntoLast_def lv
    using r
    by (simp add: Let_def setVertices_def mergedCommand_def nth_last' list_update_last')
qed

lemma accumulated_simps:
  "vertices (accumulated T q vs es) = vertices q @ vs"
  "commands (accumulated T q vs es) = commands q"
  "drawTrianglesCommandPool (accumulated T q vs es) = drawTrianglesCommandPool q"
  "err (accumulated T q vs es) = err q"
  by (simp_all add: accumulated_def accumulate_eq)

lemma fst_accumulate:
  "fst (accumulate T q vs es) = mustUseDifferentVertexBuffer T (tmpNumVertexFloats q + length vs)"
  by (simp add: accumulate_eq)

lemma Enqueue_new:
  assumes le: "length vs \<le> maxVertexFloatCount T"
    and nomerge: "mustUseDifferentVertexBuffer T (tmpNumVertexFloats q + length vs)
       \<or> commands q = [] \<or> (\<exists>k. last (commands q) = OtherCmd k)
       \<or> (\<exists>l. last (commands q) = DrawTrianglesCmd l
             \<and> \<not> CanMergeWithDrawTrianglesCommand D l dst srcs vs bl sh
                   (FilterUniformVariables D sh
                      (preservedUniforms T sh dst srcs dstRegion srcRegions @ uniforms)) fr)"
  shows "\<exists>buf. EnqueueDrawTrianglesCommand T D q dst srcs vs es bl dstRegion srcRegions sh uniforms fr
     = Inr ((accumulated T q vs es)
             \<lparr> uint32sBuffer := buf,
               drawTrianglesCommandPool :=
                 drawTrianglesCommandPool_get (drawTrianglesCommandPool q),
               commands := commands q @
                 [DrawTrianglesCmd (newDrawTrianglesCommand D dst srcs vs es bl dstRegion sh
                    (FilterUniformVariables D sh
                       (preservedUniforms T sh dst srcs dstRegion srcRegions @ uniforms)) fr)] \<rparr>)"
proof -
  let ?u = "FilterUniformVariables D sh
              (preservedUniforms T sh dst srcs dstRegion srcRegions @ uniforms)"
  from Enqueue_eq [OF le, of D q dst srcs es bl dstRegion srcRegions sh uniforms fr]
  obtain buf where e: "EnqueueDrawTrianglesCommand T D q dst srcs vs es bl dstRegion srcRegions
      sh uniforms fr
     = mergeOrAppend D (fst (accumulate T q vs es))
         ((accumulated T q vs es)\<lparr>uint32sBuffer := buf\<rparr>) dst srcs vs es bl dstRegion sh ?u fr"
    unfolding accumulated_def by blast
  let ?q6 = "(accumulated T q vs es)\<lparr>uint32sBuffer := buf\<rparr>"
  have v: "vertices ?q6 = vertices q @ vs" by (simp add: accumulated_simps)
  have a: "appendNewCommand D ?q6 dst srcs vs es bl dstRegion sh ?u fr
     = Inr (?q6\<lparr> drawTrianglesCommandPool :=
                 drawTrianglesCommandPool_get (drawTrianglesCommandPool ?q6),
               commands := commands ?q6 @
                 [DrawTrianglesCmd (newDrawTrianglesCommand D dst srcs vs es bl dstRegion sh ?u fr)] \<rparr>)"
    by (rule appendNewCommand_eq [OF v])
  have m: "mergeOrAppend D (fst (accumulate T q vs es)) ?q6 dst srcs vs es bl dstRegion sh ?u fr
     = appendNewCommand D ?q6 dst srcs vs es bl dstRegion sh ?u fr"
    using nomerge
    by (auto simp: mergeOrAppend_def fst_accumulate accumulated_simps nth_last'
        split: command.splits)
  show ?thesis
    unfolding e m a by (rule exI [of _ buf]) (simp add: accumulated_simps)
qed

lemma Enqueue_merge:
  assumes nosplit: "\<not> mustUseDifferentVertexBuffer T (tmpNumVertexFloats q + length vs)"
    and nonempty: "commands q \<noteq> []"
    and lastc: "last (commands q) = DrawTrianglesCmd l"
    and compat: "CanMergeWithDrawTrianglesCommand D l dst srcs vs bl sh
                   (FilterUniformVariables D sh
                      (preservedUniforms T sh dst srcs dstRegion srcRegions @ uniforms)) fr"
    and ok: "lastCommandOk q"
  shows "\<exists>buf. EnqueueDrawTrianglesCommand T D q dst srcs vs es bl dstRegion srcRegions sh uniforms fr
     = Inr ((accumulated T q vs es)
             \<lparr> uint32sBuffer := buf,
               commands := butlast (commands q) @
                 [DrawTrianglesCmd (mergedCommand l vs es dstRegion)] \<rparr>)"
proof -
  let ?u = "FilterUniformVariables D sh
              (preservedUniforms T sh dst srcs dstRegion srcRegions @ uniforms)"
  have le: "length vs \<le> maxVertexFloatCount T"
    using nosplit by (simp add: mustUseDifferentVertexBuffer_def)
  from Enqueue_eq [OF le, of D q dst srcs es bl dstRegion srcRegions sh uniforms fr]
  obtain buf where e: "EnqueueDrawTrianglesCommand T D q dst srcs vs es bl dstRegion srcRegions
      sh uniforms fr
     = mergeOrAppend D (fst (accumulate T q vs es))
         ((accumulated T q vs es)\<lparr>uint32sBuffer := buf\<rparr>) dst srcs vs es bl dstRegion sh ?u fr"
    unfolding accumulated_def by blast
  let ?q6 = "(accumulated T q vs es)\<lparr>uint32sBuffer := buf\<rparr>"
  have v: "vertices ?q6 = vertices q @ vs" by (simp add: accumulated_simps)
  from ok nonempty lastc have r: "c_dstRegions l \<noteq> []"
    and n: "numVertices l \<le> length (vertices q)"
    and t: "c_vertices l = drop (length (vertices q) - numVertices l) (vertices q)"
    by (auto simp: lastCommandOk_def split: list.splits)
  have mi: "mergeIntoLast ?q6 l (length vs) (length es) dstRegion
     = Inr (mergedCommand l vs es dstRegion)"
    by (rule mergeIntoLast_eq [OF v r n t])
  have m: "mergeOrAppend D (fst (accumulate T q vs es)) ?q6 dst srcs vs es bl dstRegion sh ?u fr
     = Inr (?q6\<lparr>commands := butlast (commands q) @
                 [DrawTrianglesCmd (mergedCommand l vs es dstRegion)]\<rparr>)"
    using nosplit nonempty lastc compat
    by (simp add: mergeOrAppend_def fst_accumulate accumulated_simps nth_last' mi
        list_update_last')
  show ?thesis
    unfolding e m by (rule exI [of _ buf]) simp
qed

lemma ex_maxVertexFloatCount: "maxVertexFloatCount ex_platform = 34359738360"
  by (simp add: maxVertexFloatCount_def MaxVertexCount_64 ex_platform_def)

lemma ex_length_vs: "length ex_vs = 32"
  by (simp add: ex_vs_def)

lemma ex_lastCommandOk1: "lastCommandOk ex_queue1"
  by (simp add: lastCommandOk_def ex_queue1_def newCommandQueue_def ex_cmd_def
      newDrawTrianglesCommand_def numVertices_def)

section \<open>The claims\<close>

text \<open>
  Claim C6. \<^verbatim>\<open>appendIndices(indices, offset)\<close> makes the index slice of the queue grow by
  \<open>len(indices)\<close> elements, each the input index plus the offset (in 32-bit
  arithmetic), and leaves the indices stored before as they are. In
  \<^verbatim>\<open>EnqueueDrawTrianglesCommand\<close> the offset is the value that
  \<^verbatim>\<open>tmpNumVertexFloats / VertexFloatCount\<close> has at that line (the counter is zero there
  when the draw starts a new vertex buffer), and the vertex floats are appended as they
  are.
\<close>

theorem C6_appendIndices:
  "indices (appendIndices q es offset) = indices q @ map (\<lambda>e. e + offset) es
   \<and> length (indices (appendIndices q es offset)) = length (indices q) + length es
   \<and> (\<forall>q'. EnqueueDrawTrianglesCommand T D q dst srcs vs es bl dstRegion srcRegions sh
              uniforms fr = Inr q'
         \<longrightarrow> vertices q' = vertices q @ vs
             \<and> indices q' =
                 indices (appendIndices q es
                   (of_nat ((if mustUseDifferentVertexBuffer T (tmpNumVertexFloats q + length vs)
                             then 0 else tmpNumVertexFloats q) div VertexFloatCount T))))"
  by (simp add: appendIndices_eq Enqueue_fields)

theorem C6_appendIndices_witness:
  "\<exists>q'. EnqueueDrawTrianglesCommand ex_platform ex_deps ex_queue1 ex_dst ex_srcs ex_vs ex_es
          (Blend 0) ex_rect ex_srcRegions ex_shader [] FillRuleFillAll = Inr q'
     \<and> vertices q' = ex_vs @ ex_vs
     \<and> indices q' = [0, 1, 2, 1, 2, 3, 4, 5, 6, 5, 6, 7]"
proof -
  have le: "length ex_vs \<le> maxVertexFloatCount ex_platform"
    by (simp add: ex_maxVertexFloatCount ex_length_vs)
  have ns: "\<not> mustUseDifferentVertexBuffer ex_platform (tmpNumVertexFloats ex_queue1 + length ex_vs)"
    by (simp add: mustUseDifferentVertexBuffer_def ex_maxVertexFloatCount ex_length_vs
        ex_queue1_def)
  have cm: "CanMergeWithDrawTrianglesCommand ex_deps ex_cmd ex_dst ex_srcs ex_vs (Blend 0) ex_shader
      (FilterUniformVariables ex_deps ex_shader
         (preservedUniforms ex_platform ex_shader ex_dst ex_srcs ex_rect ex_srcRegions @ []))
      FillRuleFillAll"
    by (simp add: ex_deps_def specCanMerge_def ex_cmd_def newDrawTrianglesCommand_def
        ex_uniforms_def del: preservedUniforms.simps)
  from Enqueue_merge [of ex_platform ex_queue1 ex_vs ex_cmd ex_deps ex_dst ex_srcs "Blend 0"
      ex_shader ex_rect ex_srcRegions "[]" FillRuleFillAll ex_es, OF ns _ _ cm ex_lastCommandOk1]
  obtain q' where e: "EnqueueDrawTrianglesCommand ex_platform ex_deps ex_queue1 ex_dst ex_srcs
      ex_vs ex_es (Blend 0) ex_rect ex_srcRegions ex_shader [] FillRuleFillAll = Inr q'"
    by (auto simp: ex_queue1_def)
  have off: "(of_nat ((if mustUseDifferentVertexBuffer ex_platform
                          (tmpNumVertexFloats ex_queue1 + length ex_vs)
                       then 0 else tmpNumVertexFloats ex_queue1) div VertexFloatCount ex_platform)
              :: u32) = 4"
    using ns by (simp add: ex_queue1_def ex_platform_def)
  from C6_appendIndices [of ex_queue1 ex_es 4 ex_platform ex_deps ex_dst ex_srcs ex_vs "Blend 0"
      ex_rect ex_srcRegions ex_shader "[]" FillRuleFillAll] e off
  have "vertices q' = vertices ex_queue1 @ ex_vs
     \<and> indices q' = indices ex_queue1 @ map (\<lambda>e. e + 4) ex_es"
    by simp
  then have "vertices q' = ex_vs @ ex_vs \<and> indices q' = [0, 1, 2, 1, 2, 3, 4, 5, 6, 5, 6, 7]"
    by (simp add: ex_queue1_def ex_es_def)
  with e show ?thesis by blast
qed

text \<open>
  Claim C5. \<^verbatim>\<open>mustUseDifferentVertexBuffer(n)\<close> is true exactly when \<open>n\<close> exceeds
  \<^verbatim>\<open>maxVertexFloatCount\<close>. \<^verbatim>\<open>MaxVertexCount\<close> is \<open>2^32 - 1\<close> on a 64-bit target and
  \<^verbatim>\<open>MaxInt32 / VertexFloatCount\<close> on a 32-bit target, where \<^verbatim>\<open>maxVertexFloatCount\<close>
  then fits Go's \<^verbatim>\<open>int\<close>. When \<^verbatim>\<open>EnqueueDrawTrianglesCommand\<close> detects a split, the
  counter restarts from zero (it is \<open>0 + len(vertices)\<close> afterwards and the indices are
  appended with offset zero), and the draw is not merged: a new command is appended.
\<close>

theorem C5_split:
  "mustUseDifferentVertexBuffer T n = (n > maxVertexFloatCount T)
   \<and> (uintBits T = 64 \<longrightarrow> MaxVertexCount T = 2 ^ 32 - 1)
   \<and> (uintBits T = 32 \<longrightarrow>
         MaxVertexCount T = (2 ^ 31 - 1) div VertexFloatCount T
         \<and> maxVertexFloatCount T \<le> MaxInt T)
   \<and> (mustUseDifferentVertexBuffer T (tmpNumVertexFloats q + length vs)
        \<and> length vs \<le> maxVertexFloatCount T \<longrightarrow>
         (\<exists>q'. EnqueueDrawTrianglesCommand T D q dst srcs vs es bl dstRegion srcRegions sh
                 uniforms fr = Inr q'
            \<and> tmpNumVertexFloats q' = 0 + length vs
            \<and> indices q' = indices q @ es
            \<and> vertices q' = vertices q @ vs
            \<and> commands q' = commands q @
                 [DrawTrianglesCmd
                    (newDrawTrianglesCommand D dst srcs vs es bl dstRegion sh
                       (FilterUniformVariables D sh
                          (preservedUniforms T sh dst srcs dstRegion srcRegions @ uniforms))
                       fr)]))"
proof (intro conjI impI)
  show "mustUseDifferentVertexBuffer T n = (n > maxVertexFloatCount T)"
    by (simp add: mustUseDifferentVertexBuffer_def)
next
  assume "uintBits T = 64"
  then show "MaxVertexCount T = 2 ^ 32 - 1" by (rule MaxVertexCount_64)
next
  assume "uintBits T = 32"
  then show "MaxVertexCount T = (2 ^ 31 - 1) div VertexFloatCount T"
    by (simp add: MaxVertexCount_32 MaxInt32_def)
next
  assume "uintBits T = 32"
  then show "maxVertexFloatCount T \<le> MaxInt T" by (rule maxVFC_32)
next
  assume a: "mustUseDifferentVertexBuffer T (tmpNumVertexFloats q + length vs)
        \<and> length vs \<le> maxVertexFloatCount T"
  then have le: "length vs \<le> maxVertexFloatCount T"
    and sp: "mustUseDifferentVertexBuffer T (tmpNumVertexFloats q + length vs)" by simp_all
  from Enqueue_new [OF le, of q D dst srcs bl sh dstRegion srcRegions uniforms fr es] sp
  obtain buf where e: "EnqueueDrawTrianglesCommand T D q dst srcs vs es bl dstRegion srcRegions sh
      uniforms fr
     = Inr ((accumulated T q vs es)
             \<lparr> uint32sBuffer := buf,
               drawTrianglesCommandPool :=
                 drawTrianglesCommandPool_get (drawTrianglesCommandPool q),
               commands := commands q @
                 [DrawTrianglesCmd (newDrawTrianglesCommand D dst srcs vs es bl dstRegion sh
                    (FilterUniformVariables D sh
                       (preservedUniforms T sh dst srcs dstRegion srcRegions @ uniforms)) fr)] \<rparr>)"
    by blast
  show "\<exists>q'. EnqueueDrawTrianglesCommand T D q dst srcs vs es bl dstRegion srcRegions sh
                 uniforms fr = Inr q'
            \<and> tmpNumVertexFloats q' = 0 + length vs
            \<and> indices q' = indices q @ es
            \<and> vertices q' = vertices q @ vs
            \<and> commands q' = commands q @
                 [DrawTrianglesCmd
                    (newDrawTrianglesCommand D dst srcs vs es bl dstRegion sh
                       (FilterUniformVariables D sh
                          (preservedUniforms T sh dst srcs dstRegion srcRegions @ uniforms))
                       fr)]"
    unfolding e using sp by (simp add: accumulated_def accumulate_eq)
qed

theorem C5_split_witness:
  "mustUseDifferentVertexBuffer ex_platform (tmpNumVertexFloats ex_queueFull + length ex_vs)
   \<and> length ex_vs \<le> maxVertexFloatCount ex_platform
   \<and> (\<exists>q'. EnqueueDrawTrianglesCommand ex_platform ex_deps ex_queueFull ex_dst ex_srcs ex_vs
             ex_es (Blend 0) ex_rect ex_srcRegions ex_shader [] FillRuleFillAll = Inr q'
          \<and> tmpNumVertexFloats q' = 32
          \<and> indices q' = ex_es @ ex_es
          \<and> length (commands q') = 2)
   \<and> uintBits ex_platform = 64 \<and> MaxVertexCount ex_platform = 4294967295
   \<and> uintBits ex_platform32 = 32 \<and> MaxVertexCount ex_platform32 = 268435455
   \<and> maxVertexFloatCount ex_platform32 \<le> MaxInt ex_platform32"
proof -
  have sp: "mustUseDifferentVertexBuffer ex_platform
      (tmpNumVertexFloats ex_queueFull + length ex_vs)"
    by (simp add: mustUseDifferentVertexBuffer_def ex_maxVertexFloatCount ex_length_vs
        ex_queueFull_def)
  have le: "length ex_vs \<le> maxVertexFloatCount ex_platform"
    by (simp add: ex_maxVertexFloatCount ex_length_vs)
  have b64: "uintBits ex_platform = 64" by (simp add: ex_platform_def)
  have b32: "uintBits ex_platform32 = 32" by (simp add: ex_platform32_def)
  have v32: "VertexFloatCount ex_platform32 = 8" by (simp add: ex_platform32_def ex_platform_def)
  note t = C5_split [of ex_platform 0 ex_queueFull ex_vs ex_deps ex_dst ex_srcs ex_es "Blend 0"
      ex_rect ex_srcRegions ex_shader "[]" FillRuleFillAll]
  note t32 = C5_split [of ex_platform32 0 ex_queueFull ex_vs ex_deps ex_dst ex_srcs ex_es "Blend 0"
      ex_rect ex_srcRegions ex_shader "[]" FillRuleFillAll]
  from t sp le obtain q' where
    "EnqueueDrawTrianglesCommand ex_platform ex_deps ex_queueFull ex_dst ex_srcs ex_vs
             ex_es (Blend 0) ex_rect ex_srcRegions ex_shader [] FillRuleFillAll = Inr q'"
    "tmpNumVertexFloats q' = 0 + length ex_vs"
    "indices q' = indices ex_queueFull @ ex_es"
    "length (commands q') = length (commands ex_queueFull) + 1"
    by auto
  then have ex: "\<exists>q'. EnqueueDrawTrianglesCommand ex_platform ex_deps ex_queueFull ex_dst ex_srcs
             ex_vs ex_es (Blend 0) ex_rect ex_srcRegions ex_shader [] FillRuleFillAll = Inr q'
          \<and> tmpNumVertexFloats q' = 32
          \<and> indices q' = ex_es @ ex_es
          \<and> length (commands q') = 2"
    by (auto simp: ex_length_vs ex_queueFull_def)
  have m64: "MaxVertexCount ex_platform = 4294967295" using t b64 by simp
  have m32: "MaxVertexCount ex_platform32 = 268435455
      \<and> maxVertexFloatCount ex_platform32 \<le> MaxInt ex_platform32"
    using t32 b32 v32 by simp
  from sp le ex b64 m64 b32 m32 show ?thesis by blast
qed

lemma lastCommandOk_new:
  "lastCommandOk ((accumulated T q vs es)
      \<lparr> uint32sBuffer := buf, drawTrianglesCommandPool := p,
        commands := commands q @
          [DrawTrianglesCmd (newDrawTrianglesCommand D dst srcs vs es bl dstRegion sh u fr)] \<rparr>)"
  by (simp add: lastCommandOk_def accumulated_simps newDrawTrianglesCommand_def numVertices_def)

lemma lastCommandOk_merged:
  assumes "lastCommandOk q" and "commands q \<noteq> []" and "last (commands q) = DrawTrianglesCmd l"
  shows "lastCommandOk ((accumulated T q vs es)
      \<lparr> uint32sBuffer := buf,
        commands := butlast (commands q) @
          [DrawTrianglesCmd (mergedCommand l vs es dstRegion)] \<rparr>)"
proof -
  from assms have r: "c_dstRegions l \<noteq> []"
    and n: "numVertices l \<le> length (vertices q)"
    and t: "c_vertices l = drop (length (vertices q) - numVertices l) (vertices q)"
    by (auto simp: lastCommandOk_def split: list.splits)
  have d: "drop (length (vertices q) + length vs - (numVertices l + length vs)) (vertices q @ vs)
      = c_vertices l @ vs"
    using n t by simp
  have n': "numVertices (mergedCommand l vs es dstRegion) = numVertices l + length vs"
    by (simp add: mergedCommand_def numVertices_def)
  have v': "c_vertices (mergedCommand l vs es dstRegion) = c_vertices l @ vs"
    by (simp add: mergedCommand_def)
  have r': "c_dstRegions (mergedCommand l vs es dstRegion) \<noteq> []"
    by (simp add: mergedCommand_def)
  show ?thesis
    using n t by (simp add: lastCommandOk_def accumulated_simps n' v' r')
qed

lemma Enqueue_total:
  assumes ok: "lastCommandOk q" and le: "length vs \<le> maxVertexFloatCount T"
  shows "\<exists>q'. EnqueueDrawTrianglesCommand T D q dst srcs vs es bl dstRegion srcRegions sh
              uniforms fr = Inr q' \<and> lastCommandOk q'"
proof -
  let ?u = "FilterUniformVariables D sh
              (preservedUniforms T sh dst srcs dstRegion srcRegions @ uniforms)"
  show ?thesis
  proof (cases "\<not> mustUseDifferentVertexBuffer T (tmpNumVertexFloats q + length vs)
       \<and> commands q \<noteq> []
       \<and> (\<exists>l. last (commands q) = DrawTrianglesCmd l
             \<and> CanMergeWithDrawTrianglesCommand D l dst srcs vs bl sh ?u fr)")
    case True
    then obtain l where ns: "\<not> mustUseDifferentVertexBuffer T (tmpNumVertexFloats q + length vs)"
      and ne: "commands q \<noteq> []" and la: "last (commands q) = DrawTrianglesCmd l"
      and cm: "CanMergeWithDrawTrianglesCommand D l dst srcs vs bl sh ?u fr"
      by blast
    from Enqueue_merge [OF ns ne la cm ok, of es]
    obtain buf where "EnqueueDrawTrianglesCommand T D q dst srcs vs es bl dstRegion srcRegions sh
        uniforms fr
       = Inr ((accumulated T q vs es)
               \<lparr> uint32sBuffer := buf,
                 commands := butlast (commands q) @
                   [DrawTrianglesCmd (mergedCommand l vs es dstRegion)] \<rparr>)"
      by blast
    with lastCommandOk_merged [OF ok ne la] show ?thesis by simp
  next
    case False
    then have nm: "mustUseDifferentVertexBuffer T (tmpNumVertexFloats q + length vs)
       \<or> commands q = [] \<or> (\<exists>k. last (commands q) = OtherCmd k)
       \<or> (\<exists>l. last (commands q) = DrawTrianglesCmd l
             \<and> \<not> CanMergeWithDrawTrianglesCommand D l dst srcs vs bl sh ?u fr)"
      by (cases "last (commands q)") auto
    from Enqueue_new [OF le nm, of es]
    obtain buf where "EnqueueDrawTrianglesCommand T D q dst srcs vs es bl dstRegion srcRegions sh
        uniforms fr
       = Inr ((accumulated T q vs es)
             \<lparr> uint32sBuffer := buf,
               drawTrianglesCommandPool :=
                 drawTrianglesCommandPool_get (drawTrianglesCommandPool q),
               commands := commands q @
                 [DrawTrianglesCmd (newDrawTrianglesCommand D dst srcs vs es bl dstRegion sh ?u fr)] \<rparr>)"
      by blast
    with lastCommandOk_new show ?thesis by simp
  qed
qed

lemma flush_noop:
  assumes "commands q = []" and "\<not> endFrame"
  shows "flush T G q endFrame b = (Returned None, q, b)"
  using assms by (simp add: flush_def)

lemma flush_begin_failed:
  assumes "commands q \<noteq> [] \<or> endFrame" and "callBegin G b = (Some e, b1)"
  shows "flush T G q endFrame b = (Returned (Some e), q, b1)"
  using assms by (auto simp: flush_def)

lemma flush_begun:
  assumes "commands q \<noteq> [] \<or> endFrame" and "callBegin G b = (None, b1)"
    and "flushRuns T G q (commands q) (vertices q) (indices q) b1 = (r, b2)"
    and "flush_deferred G q endFrame b2 = (err1, q1, b3)"
  shows "flush T G q endFrame b =
     ((case r of BodyOk \<Rightarrow> Returned err1 | BodyErr e \<Rightarrow> Returned (Some e)
       | BodyPanic p \<Rightarrow> Panicked p), q1, b3)"
  using assms by (auto simp: flush_def)

lemma flush_deferred_queue:
  assumes "flush_deferred G q endFrame b = (err1, q1, b1)"
  shows "commands q1 = []" and "vertices q1 = []" and "indices q1 = []"
    and "tmpNumVertexFloats q1 = 0"
    and "drawTrianglesCommandPool q1
           = releaseCommands (drawTrianglesCommandPool q) (commands q)"
    and "err q1 = err q"
  using assms
  by (auto simp: flush_deferred_def Let_def split: prod.splits if_splits)

lemma lastCommandOk_flush:
  assumes "lastCommandOk q"
  shows "lastCommandOk (fst (snd (flush T G q endFrame b)))"
proof (cases "commands q \<noteq> [] \<or> endFrame")
  case False
  then show ?thesis using assms by (simp add: flush_noop)
next
  case True
  obtain r0 b1 where cb: "callBegin G b = (r0, b1)" by (cases "callBegin G b")
  show ?thesis
  proof (cases r0)
    case (Some e)
    with cb True assms show ?thesis by (simp add: flush_begin_failed)
  next
    case None
    obtain r b2 where fr: "flushRuns T G q (commands q) (vertices q) (indices q) b1 = (r, b2)"
      by (cases "flushRuns T G q (commands q) (vertices q) (indices q) b1")
    obtain err1 q1 b3 where fd: "flush_deferred G q endFrame b2 = (err1, q1, b3)"
      by (cases "flush_deferred G q endFrame b2")
    from cb None have cb': "callBegin G b = (None, b1)" by simp
    have "commands q1 = []" using fd by (rule flush_deferred_queue)
    then show ?thesis
      by (simp add: flush_begun [OF True cb' fr fd] lastCommandOk_def)
  qed
qed

text \<open>
  Claim C4. \<^verbatim>\<open>EnqueueDrawTrianglesCommand\<close> panics when \<open>len(vertices)\<close> exceeds
  \<^verbatim>\<open>maxVertexFloatCount\<close>. On a queue in the state that the queue operations
  maintain (\<open>lastCommandOk\<close>: it holds for a new queue and is kept by \<^verbatim>\<open>Enqueue\<close> of a
  command of another kind, by \<^verbatim>\<open>EnqueueDrawTrianglesCommand\<close> and by \<^verbatim>\<open>flush\<close>), it
  panics only then: with at most \<^verbatim>\<open>maxVertexFloatCount\<close> floats it returns a queue, and
  it leaves the error slot of the queue as it is. The operation has no error result.
\<close>

theorem C4_enqueue_panics_only_on_length:
  "(length vs > maxVertexFloatCount T \<longrightarrow>
      EnqueueDrawTrianglesCommand T D q dst srcs vs es bl dstRegion srcRegions sh uniforms fr
        = Inl (PanicTooManyVertices (maxVertexFloatCount T) (length vs)))
   \<and> (lastCommandOk q \<longrightarrow>
        ((\<exists>p. EnqueueDrawTrianglesCommand T D q dst srcs vs es bl dstRegion srcRegions sh
                uniforms fr = Inl p)
         = (length vs > maxVertexFloatCount T)))
   \<and> (lastCommandOk q \<and> length vs \<le> maxVertexFloatCount T \<longrightarrow>
        (\<exists>q'. EnqueueDrawTrianglesCommand T D q dst srcs vs es bl dstRegion srcRegions sh
                uniforms fr = Inr q'
           \<and> lastCommandOk q' \<and> err q' = err q))
   \<and> lastCommandOk newCommandQueue
   \<and> (lastCommandOk q \<longrightarrow> lastCommandOk (Enqueue q (OtherCmd k)))
   \<and> (lastCommandOk q \<longrightarrow> lastCommandOk (fst (snd (flush T G q endFrame b))))"
proof (intro conjI impI)
  assume "length vs > maxVertexFloatCount T"
  then show "EnqueueDrawTrianglesCommand T D q dst srcs vs es bl dstRegion srcRegions sh uniforms fr
        = Inl (PanicTooManyVertices (maxVertexFloatCount T) (length vs))"
    by (simp add: EnqueueDrawTrianglesCommand_def)
next
  assume ok: "lastCommandOk q"
  show "(\<exists>p. EnqueueDrawTrianglesCommand T D q dst srcs vs es bl dstRegion srcRegions sh
                uniforms fr = Inl p)
         = (length vs > maxVertexFloatCount T)"
  proof (cases "length vs > maxVertexFloatCount T")
    case True
    then show ?thesis by (simp add: EnqueueDrawTrianglesCommand_def)
  next
    case False
    then have "length vs \<le> maxVertexFloatCount T" by simp
    from Enqueue_total [OF ok this, of D dst srcs es bl dstRegion srcRegions sh uniforms fr] False
    show ?thesis by auto
  qed
next
  assume a: "lastCommandOk q \<and> length vs \<le> maxVertexFloatCount T"
  then have ok: "lastCommandOk q" and le: "length vs \<le> maxVertexFloatCount T" by simp_all
  from Enqueue_total [OF ok le, of D dst srcs es bl dstRegion srcRegions sh uniforms fr]
  obtain q' where e: "EnqueueDrawTrianglesCommand T D q dst srcs vs es bl dstRegion srcRegions sh
                uniforms fr = Inr q'" and o: "lastCommandOk q'"
    by blast
  from Enqueue_fields(4) [OF e] e o
  show "\<exists>q'. EnqueueDrawTrianglesCommand T D q dst srcs vs es bl dstRegion srcRegions sh
                uniforms fr = Inr q'
           \<and> lastCommandOk q' \<and> err q' = err q"
    by blast
next
  show "lastCommandOk newCommandQueue"
    by (simp add: lastCommandOk_def newCommandQueue_def)
next
  assume "lastCommandOk q"
  then show "lastCommandOk (Enqueue q (OtherCmd k))"
    by (simp add: lastCommandOk_def Enqueue_def)
next
  assume "lastCommandOk q"
  then show "lastCommandOk (fst (snd (flush T G q endFrame b)))"
    by (rule lastCommandOk_flush)
qed

theorem C4_enqueue_panics_only_on_length_witness:
  "lastCommandOk ex_queue1 \<and> length ex_vs \<le> maxVertexFloatCount ex_platform
   \<and> (\<exists>q'. EnqueueDrawTrianglesCommand ex_platform ex_deps ex_queue1 ex_dst ex_srcs ex_vs ex_es
             (Blend 0) ex_rect ex_srcRegions ex_shader [] FillRuleFillAll = Inr q'
          \<and> lastCommandOk q' \<and> err q' = None)
   \<and> length (replicate 34359738361 (0 :: float32)) > maxVertexFloatCount ex_platform
   \<and> EnqueueDrawTrianglesCommand ex_platform ex_deps ex_queue1 ex_dst ex_srcs
         (replicate 34359738361 0) ex_es (Blend 0) ex_rect ex_srcRegions ex_shader []
         FillRuleFillAll
       = Inl (PanicTooManyVertices 34359738360 34359738361)"
proof -
  have le: "length ex_vs \<le> maxVertexFloatCount ex_platform"
    by (simp add: ex_maxVertexFloatCount ex_length_vs)
  have gt: "length (replicate 34359738361 (0 :: float32)) > maxVertexFloatCount ex_platform"
    by (simp add: ex_maxVertexFloatCount)
  have e: "err ex_queue1 = None" by (simp add: ex_queue1_def newCommandQueue_def)
  note t = C4_enqueue_panics_only_on_length [where T = ex_platform and D = ex_deps
      and q = ex_queue1 and dst = ex_dst and srcs = ex_srcs and es = ex_es and bl = "Blend 0"
      and dstRegion = ex_rect and srcRegions = ex_srcRegions and sh = ex_shader
      and uniforms = "[]" and fr = FillRuleFillAll and k = 0 and G = ex_driver
      and endFrame = False and b = ex_backend]
  from t [where vs = ex_vs] ex_lastCommandOk1 le e
  have a: "\<exists>q'. EnqueueDrawTrianglesCommand ex_platform ex_deps ex_queue1 ex_dst ex_srcs ex_vs ex_es
             (Blend 0) ex_rect ex_srcRegions ex_shader [] FillRuleFillAll = Inr q'
          \<and> lastCommandOk q' \<and> err q' = None"
    by simp
  from t [where vs = "replicate 34359738361 0"] gt
  have b: "EnqueueDrawTrianglesCommand ex_platform ex_deps ex_queue1 ex_dst ex_srcs
         (replicate 34359738361 0) ex_es (Blend 0) ex_rect ex_srcRegions ex_shader []
         FillRuleFillAll
       = Inl (PanicTooManyVertices 34359738360 34359738361)"
    by (simp add: ex_maxVertexFloatCount)
  from ex_lastCommandOk1 le a gt b show ?thesis by blast
qed

text \<open>
  Claim C1. When no split occurred, the last queued command is a draw-triangles command
  and its merge test accepts the new draw, \<^verbatim>\<open>EnqueueDrawTrianglesCommand\<close> appends no
  command: the commands before the last stay, the last command's vertex window is
  extended by the new vertices, and its last destination sub-region grows by
  \<open>len(indices)\<close> when its rectangle equals \<open>dstRegion\<close>, otherwise a sub-region with
  \<open>dstRegion\<close> and \<open>len(indices)\<close> is appended. No record is taken from the pool.
  The merge test is the package's \<^verbatim>\<open>CanMergeWithDrawTrianglesCommand\<close>, a parameter
  here; the witness takes the test in the words of the specification.
\<close>

theorem C1_merge:
  assumes nosplit: "\<not> mustUseDifferentVertexBuffer T (tmpNumVertexFloats q + length vs)"
    and nonempty: "commands q \<noteq> []"
    and lastc: "last (commands q) = DrawTrianglesCmd l"
    and compat: "CanMergeWithDrawTrianglesCommand D l dst srcs vs bl sh
                   (FilterUniformVariables D sh
                      (preservedUniforms T sh dst srcs dstRegion srcRegions @ uniforms)) fr"
    and ok: "lastCommandOk q"
  shows "\<exists>q'. EnqueueDrawTrianglesCommand T D q dst srcs vs es bl dstRegion srcRegions sh
              uniforms fr = Inr q'
     \<and> length (commands q') = length (commands q)
     \<and> butlast (commands q') = butlast (commands q)
     \<and> last (commands q') =
         DrawTrianglesCmd
           (l\<lparr> c_vertices := c_vertices l @ vs,
               c_dstRegions :=
                 (if Region (last (c_dstRegions l)) = dstRegion
                  then butlast (c_dstRegions l) @
                         [(last (c_dstRegions l))
                            \<lparr>IndexCount := IndexCount (last (c_dstRegions l)) + length es\<rparr>]
                  else c_dstRegions l @ [\<lparr> Region = dstRegion, IndexCount = length es \<rparr>]) \<rparr>)
     \<and> drawTrianglesCommandPool q' = drawTrianglesCommandPool q"
proof -
  from Enqueue_merge [OF nosplit nonempty lastc compat ok, of es]
  obtain buf where e: "EnqueueDrawTrianglesCommand T D q dst srcs vs es bl dstRegion srcRegions sh
      uniforms fr
     = Inr ((accumulated T q vs es)
             \<lparr> uint32sBuffer := buf,
               commands := butlast (commands q) @
                 [DrawTrianglesCmd (mergedCommand l vs es dstRegion)] \<rparr>)"
    by blast
  have len: "length (butlast (commands q) @ [DrawTrianglesCmd (mergedCommand l vs es dstRegion)])
      = length (commands q)"
    using nonempty by (cases "commands q" rule: rev_cases) simp_all
  show ?thesis
    unfolding e using len
    by (simp add: accumulated_simps mergedCommand_def)
qed

theorem C1_merge_witness:
  "\<exists>q'. EnqueueDrawTrianglesCommand ex_platform ex_deps ex_queue1 ex_dst ex_srcs ex_vs ex_es
          (Blend 0) ex_rect ex_srcRegions ex_shader [] FillRuleFillAll = Inr q'
     \<and> commands q' =
         [DrawTrianglesCmd
            (ex_cmd\<lparr> c_vertices := ex_vs @ ex_vs,
                      c_dstRegions := [\<lparr> Region = ex_rect, IndexCount = 12 \<rparr>] \<rparr>)]"
proof -
  have ns: "\<not> mustUseDifferentVertexBuffer ex_platform (tmpNumVertexFloats ex_queue1 + length ex_vs)"
    by (simp add: mustUseDifferentVertexBuffer_def ex_maxVertexFloatCount ex_length_vs
        ex_queue1_def)
  have cm: "CanMergeWithDrawTrianglesCommand ex_deps ex_cmd ex_dst ex_srcs ex_vs (Blend 0) ex_shader
      (FilterUniformVariables ex_deps ex_shader
         (preservedUniforms ex_platform ex_shader ex_dst ex_srcs ex_rect ex_srcRegions @ []))
      FillRuleFillAll"
    by (simp add: ex_deps_def specCanMerge_def ex_cmd_def newDrawTrianglesCommand_def
        ex_uniforms_def del: preservedUniforms.simps)
  have ne: "commands ex_queue1 \<noteq> []" by (simp add: ex_queue1_def)
  have la: "last (commands ex_queue1) = DrawTrianglesCmd ex_cmd" by (simp add: ex_queue1_def)
  from C1_merge [OF ns ne la cm ex_lastCommandOk1, of ex_es]
  obtain q' where e: "EnqueueDrawTrianglesCommand ex_platform ex_deps ex_queue1 ex_dst ex_srcs
        ex_vs ex_es (Blend 0) ex_rect ex_srcRegions ex_shader [] FillRuleFillAll = Inr q'"
    and n: "length (commands q') = length (commands ex_queue1)"
    and l: "last (commands q') =
         DrawTrianglesCmd
           (ex_cmd\<lparr> c_vertices := c_vertices ex_cmd @ ex_vs,
               c_dstRegions :=
                 (if Region (last (c_dstRegions ex_cmd)) = ex_rect
                  then butlast (c_dstRegions ex_cmd) @
                         [(last (c_dstRegions ex_cmd))
                            \<lparr>IndexCount := IndexCount (last (c_dstRegions ex_cmd)) + length ex_es\<rparr>]
                  else c_dstRegions ex_cmd @ [\<lparr> Region = ex_rect, IndexCount = length ex_es \<rparr>]) \<rparr>)"
    by blast
  from n have "length (commands q') = 1" by (simp add: ex_queue1_def)
  then obtain c where c: "commands q' = [c]"
    by (cases "commands q'") auto
  from l c have "c = DrawTrianglesCmd
            (ex_cmd\<lparr> c_vertices := ex_vs @ ex_vs,
                      c_dstRegions := [\<lparr> Region = ex_rect, IndexCount = 12 \<rparr>] \<rparr>)"
    by (simp add: ex_cmd_def newDrawTrianglesCommand_def ex_es_def)
  with e c show ?thesis by blast
qed

text \<open>
  Claim C8. \<^verbatim>\<open>commandQueue.prependPreservedUniforms\<close> returns a block of exactly 46
  values followed by the caller's uniform values, unchanged. The block does not depend
  on the shader but for the unit: slots 0-1 hold the destination's internal size, 2-9
  the sizes of the four sources (zero for a nil source), 10-13 the origin and the size
  of the destination region (divided by the destination's size in the unit Texels),
  14-21 the origins and 22-29 the sizes of the source regions (divided by the size of
  a source that is not nil in the unit Texels), 30-45 the projection matrix with
  \<open>2/dw\<close>, \<open>2/dh\<close>, \<open>1\<close>, \<open>-1\<close>, \<open>-1\<close>, \<open>1\<close> at slots 30, 35, 40, 42, 43, 45 and
  zero elsewhere. Floats are bit patterns; \<open>float32_of_int\<close> and \<open>float32_div\<close> are
  the conversion and the division of the target.
\<close>

theorem C8_preserved_uniforms:
  "(\<exists>off q'. commandQueue_prependPreservedUniforms T q uniforms sh dst (s0, s1, s2, s3) dstRegion
        (r0, r1, r2, r3)
      = Inr (preservedUniforms T sh dst (s0, s1, s2, s3) dstRegion (r0, r1, r2, r3) @ uniforms,
             off, q'))
   \<and> length (preservedUniforms T sh dst (s0, s1, s2, s3) dstRegion (r0, r1, r2, r3))
       = PreservedUniformDwordCount
   \<and> PreservedUniformDwordCount = 46
   \<and> preservedUniforms T sh dst (s0, s1, s2, s3) dstRegion (r0, r1, r2, r3) =
       (let f = float32_of_int T;
            dw = internalWidth dst;
            dh = internalHeight dst;
            texels = (shader_unit sh = Texels);
            byDst = (\<lambda>v d. if texels then float32_div T v (f d) else v);
            srcW = (\<lambda>s. case s of None \<Rightarrow> 0 | Some i \<Rightarrow> f (internalWidth i));
            srcH = (\<lambda>s. case s of None \<Rightarrow> 0 | Some i \<Rightarrow> f (internalHeight i));
            byW = (\<lambda>s v. case s of None \<Rightarrow> v
                     | Some i \<Rightarrow> if texels then float32_div T v (f (internalWidth i)) else v);
            byH = (\<lambda>s v. case s of None \<Rightarrow> v
                     | Some i \<Rightarrow> if texels then float32_div T v (f (internalHeight i)) else v)
        in [f dw, f dh,
            srcW s0, srcH s0, srcW s1, srcH s1, srcW s2, srcH s2, srcW s3, srcH s3,
            byDst (f (MinX dstRegion)) dw, byDst (f (MinY dstRegion)) dh,
            byDst (f (MaxX dstRegion - MinX dstRegion)) dw,
            byDst (f (MaxY dstRegion - MinY dstRegion)) dh,
            byW s0 (f (MinX r0)), byH s0 (f (MinY r0)),
            byW s1 (f (MinX r1)), byH s1 (f (MinY r1)),
            byW s2 (f (MinX r2)), byH s2 (f (MinY r2)),
            byW s3 (f (MinX r3)), byH s3 (f (MinY r3)),
            byW s0 (f (MaxX r0 - MinX r0)), byH s0 (f (MaxY r0 - MinY r0)),
            byW s1 (f (MaxX r1 - MinX r1)), byH s1 (f (MaxY r1 - MinY r1)),
            byW s2 (f (MaxX r2 - MinX r2)), byH s2 (f (MaxY r2 - MinY r2)),
            byW s3 (f (MaxX r3 - MinX r3)), byH s3 (f (MaxY r3 - MinY r3)),
            float32_div T 0x40000000 (f dw), 0, 0, 0,
            0, float32_div T 0x40000000 (f dh), 0, 0,
            0, 0, 0x3F800000, 0,
            0xBF800000, 0xBF800000, 0, 0x3F800000])"
proof (intro conjI)
  obtain off b where al: "alloc (uint32sBuffer q) (length uniforms + 46) = (off, b)"
    by (cases "alloc (uint32sBuffer q) (length uniforms + 46)")
  show "\<exists>off q'. commandQueue_prependPreservedUniforms T q uniforms sh dst (s0, s1, s2, s3)
        dstRegion (r0, r1, r2, r3)
      = Inr (preservedUniforms T sh dst (s0, s1, s2, s3) dstRegion (r0, r1, r2, r3) @ uniforms,
             off, q')"
    unfolding cq_prepend_eq [OF al] by blast
next
  show "length (preservedUniforms T sh dst (s0, s1, s2, s3) dstRegion (r0, r1, r2, r3))
       = PreservedUniformDwordCount"
    by (simp add: PreservedUniformDwordCount_def)
next
  show "PreservedUniformDwordCount = 46" by (simp add: PreservedUniformDwordCount_def)
next
  have src: "\<And>s r. srcRegionF32 T sh s r =
      \<lparr> rf_x = (case s of None \<Rightarrow> float32_of_int T (MinX r)
                 | Some i \<Rightarrow> if shader_unit sh = Texels
                     then float32_div T (float32_of_int T (MinX r))
                            (float32_of_int T (internalWidth i))
                     else float32_of_int T (MinX r)),
        rf_y = (case s of None \<Rightarrow> float32_of_int T (MinY r)
                 | Some i \<Rightarrow> if shader_unit sh = Texels
                     then float32_div T (float32_of_int T (MinY r))
                            (float32_of_int T (internalHeight i))
                     else float32_of_int T (MinY r)),
        rf_width = (case s of None \<Rightarrow> float32_of_int T (MaxX r - MinX r)
                 | Some i \<Rightarrow> if shader_unit sh = Texels
                     then float32_div T (float32_of_int T (MaxX r - MinX r))
                            (float32_of_int T (internalWidth i))
                     else float32_of_int T (MaxX r - MinX r)),
        rf_height = (case s of None \<Rightarrow> float32_of_int T (MaxY r - MinY r)
                 | Some i \<Rightarrow> if shader_unit sh = Texels
                     then float32_div T (float32_of_int T (MaxY r - MinY r))
                            (float32_of_int T (internalHeight i))
                     else float32_of_int T (MaxY r - MinY r)) \<rparr>"
    by (simp add: srcRegionF32_def imageRectangleToRectangleF32_def divideRect_def Dx_def Dy_def
        Let_def split: option.splits)
  have dst: "dstRegionF32 T sh dst dstRegion =
      \<lparr> rf_x = (if shader_unit sh = Texels
                 then float32_div T (float32_of_int T (MinX dstRegion))
                        (float32_of_int T (internalWidth dst))
                 else float32_of_int T (MinX dstRegion)),
        rf_y = (if shader_unit sh = Texels
                 then float32_div T (float32_of_int T (MinY dstRegion))
                        (float32_of_int T (internalHeight dst))
                 else float32_of_int T (MinY dstRegion)),
        rf_width = (if shader_unit sh = Texels
                 then float32_div T (float32_of_int T (MaxX dstRegion - MinX dstRegion))
                        (float32_of_int T (internalWidth dst))
                 else float32_of_int T (MaxX dstRegion - MinX dstRegion)),
        rf_height = (if shader_unit sh = Texels
                 then float32_div T (float32_of_int T (MaxY dstRegion - MinY dstRegion))
                        (float32_of_int T (internalHeight dst))
                 else float32_of_int T (MaxY dstRegion - MinY dstRegion)) \<rparr>"
    by (simp add: dstRegionF32_def imageRectangleToRectangleF32_def divideRect_def Dx_def Dy_def
        Let_def)
  show "preservedUniforms T sh dst (s0, s1, s2, s3) dstRegion (r0, r1, r2, r3) =
       (let f = float32_of_int T;
            dw = internalWidth dst;
            dh = internalHeight dst;
            texels = (shader_unit sh = Texels);
            byDst = (\<lambda>v d. if texels then float32_div T v (f d) else v);
            srcW = (\<lambda>s. case s of None \<Rightarrow> 0 | Some i \<Rightarrow> f (internalWidth i));
            srcH = (\<lambda>s. case s of None \<Rightarrow> 0 | Some i \<Rightarrow> f (internalHeight i));
            byW = (\<lambda>s v. case s of None \<Rightarrow> v
                     | Some i \<Rightarrow> if texels then float32_div T v (f (internalWidth i)) else v);
            byH = (\<lambda>s v. case s of None \<Rightarrow> v
                     | Some i \<Rightarrow> if texels then float32_div T v (f (internalHeight i)) else v)
        in [f dw, f dh,
            srcW s0, srcH s0, srcW s1, srcH s1, srcW s2, srcH s2, srcW s3, srcH s3,
            byDst (f (MinX dstRegion)) dw, byDst (f (MinY dstRegion)) dh,
            byDst (f (MaxX dstRegion - MinX dstRegion)) dw,
            byDst (f (MaxY dstRegion - MinY dstRegion)) dh,
            byW s0 (f (MinX r0)), byH s0 (f (MinY r0)),
            byW s1 (f (MinX r1)), byH s1 (f (MinY r1)),
            byW s2 (f (MinX r2)), byH s2 (f (MinY r2)),
            byW s3 (f (MinX r3)), byH s3 (f (MinY r3)),
            byW s0 (f (MaxX r0 - MinX r0)), byH s0 (f (MaxY r0 - MinY r0)),
            byW s1 (f (MaxX r1 - MinX r1)), byH s1 (f (MaxY r1 - MinY r1)),
            byW s2 (f (MaxX r2 - MinX r2)), byH s2 (f (MaxY r2 - MinY r2)),
            byW s3 (f (MaxX r3 - MinX r3)), byH s3 (f (MaxY r3 - MinY r3)),
            float32_div T 0x40000000 (f dw), 0, 0, 0,
            0, float32_div T 0x40000000 (f dh), 0, 0,
            0, 0, 0x3F800000, 0,
            0xBF800000, 0xBF800000, 0, 0x3F800000])"
    unfolding preservedUniforms.simps src dst Let_def
    by (simp add: srcWidthBits_def srcHeightBits_def float32_one_def float32_two_def
        float32_minus_one_def)
qed

theorem C8_preserved_uniforms_witness:
  "\<exists>off q'. commandQueue_prependPreservedUniforms ex_platform newCommandQueue [7, 9] ex_shader
       ex_dst ex_srcs ex_rect ex_srcRegions
     = Inr ([0x40000000, 0x40000000,
             0x40000000, 0x40000000, 0, 0, 0, 0, 0, 0,
             0, 0, 0x3F000000, 0x3F000000,
             0, 0, 0, 0, 0, 0, 0, 0,
             0x3F000000, 0x3F000000, 0, 0, 0, 0, 0, 0,
             0x3F800000, 0, 0, 0,
             0, 0x3F800000, 0, 0,
             0, 0, 0x3F800000, 0,
             0xBF800000, 0xBF800000, 0, 0x3F800000] @ [7, 9], off, q')"
proof -
  note t = C8_preserved_uniforms [of ex_platform newCommandQueue "[7, 9]" ex_shader ex_dst
      "Some ex_src" None None None ex_rect ex_rect ex_norect ex_norect ex_norect]
  have b: "preservedUniforms ex_platform ex_shader ex_dst (Some ex_src, None, None, None) ex_rect
        (ex_rect, ex_norect, ex_norect, ex_norect)
      = [0x40000000, 0x40000000,
             0x40000000, 0x40000000, 0, 0, 0, 0, 0, 0,
             0, 0, 0x3F000000, 0x3F000000,
             0, 0, 0, 0, 0, 0, 0, 0,
             0x3F000000, 0x3F000000, 0, 0, 0, 0, 0, 0,
             0x3F800000, 0, 0, 0,
             0, 0x3F800000, 0, 0,
             0, 0, 0x3F800000, 0,
             0xBF800000, 0xBF800000, 0, 0x3F800000]"
    using t
    by (simp add: ex_platform_def ex_shader_def ex_dst_def ex_src_def ex_rect_def ex_norect_def
        ex_float32_of_int_def ex_float32_div_def Let_def del: preservedUniforms.simps)
  from t show ?thesis
    unfolding ex_srcs_def ex_srcRegions_def b by blast
qed

lemma callExec_trace:
  assumes "callExec G q c i b = (r, b')"
  shows "trace b' = trace b @ [CallExec c i]"
  using assms by (auto simp: callExec_def Let_def split: prod.splits)

lemma callSetVertices_trace:
  assumes "callSetVertices G vs es b = (r, b')"
  shows "trace b' = trace b @ [CallSetVertices vs es]"
  using assms by (auto simp: callSetVertices_def Let_def split: prod.splits)

lemma callBegin_trace:
  assumes "callBegin G b = (r, b')"
  shows "trace b' = trace b @ [CallBegin]" and "r = fst (Begin G (drv_state b))"
  using assms by (auto simp: callBegin_def Let_def split: prod.splits)

lemma callEnd_trace:
  assumes "callEnd G present b = (r, b')"
  shows "trace b' = trace b @ [CallEnd present]" and "r = fst (End G present (drv_state b))"
  using assms by (auto simp: callEnd_def Let_def split: prod.splits)

lemma execRun_trace:
  assumes "execRun G q cs i b = (r, b')"
  shows "\<exists>calls. trace b' = trace b @ calls \<and> filter isEndCall calls = []"
  using assms
proof (induction cs arbitrary: i b)
  case Nil
  then show ?case by simp
next
  case (Cons c cs)
  obtain r1 b1 where ce: "callExec G q c i b = (r1, b1)" by (cases "callExec G q c i b")
  have t1: "trace b1 = trace b @ [CallExec c i]" using ce by (rule callExec_trace)
  show ?case
  proof (cases r1)
    case (Some e)
    with Cons.prems ce have "b' = b1" by simp
    with t1 show ?thesis by simp
  next
    case None
    let ?i' = "case c of DrawTrianglesCmd dtc \<Rightarrow> i + numIndices dtc | OtherCmd k \<Rightarrow> i"
    from Cons.prems ce None have "execRun G q cs ?i' b1 = (r, b')" by simp
    from Cons.IH [OF this] obtain calls where
      "trace b' = trace b1 @ calls" "filter isEndCall calls = []" by blast
    with t1 have "trace b' = trace b @ (CallExec c i # calls)
        \<and> filter isEndCall (CallExec c i # calls) = []"
      by simp
    then show ?thesis by blast
  qed
qed

lemma uploadRun_trace:
  assumes "uploadRun G vs es nv ne b = (r, vs1, es1, b')"
  shows "\<exists>calls. trace b' = trace b @ calls \<and> filter isEndCall calls = []"
proof (cases "0 < ne \<and> \<not> (nv > length vs \<or> ne > length es)")
  case True
  obtain r1 b1 where cs: "callSetVertices G (take nv vs) (take ne es) b = (r1, b1)"
    by (cases "callSetVertices G (take nv vs) (take ne es) b")
  have t: "trace b1 = trace b @ [CallSetVertices (take nv vs) (take ne es)]"
    using cs by (rule callSetVertices_trace)
  from assms True cs have "b' = b1"
    by (auto simp: uploadRun_def split: option.splits)
  with t show ?thesis by simp
next
  case False
  with assms have "b' = b" by (auto simp: uploadRun_def split: if_splits)
  then show ?thesis by simp
qed

lemma flushRuns_trace:
  "flushRuns T G q cs vs es b = (r, b')
     \<Longrightarrow> \<exists>calls. trace b' = trace b @ calls \<and> filter isEndCall calls = []"
proof (induction T G q cs vs es b arbitrary: r b' rule: flushRuns.induct)
  case (1 T G q cs vs es b)
  show ?case
  proof (cases "cs = []")
    case True
    with "1.prems" have "b' = b" by (simp add: flushRuns.simps)
    then show ?thesis by simp
  next
    case False
    obtain nv ne nc where cr: "countRun T cs 0 0 0 = (nv, ne, nc)"
      by (cases "countRun T cs 0 0 0")
    obtain r1 vs1 es1 b1 where ur: "uploadRun G vs es nv ne b = (r1, vs1, es1, b1)"
      by (cases "uploadRun G vs es nv ne b")
    from uploadRun_trace [OF ur] obtain c1 where
      t1: "trace b1 = trace b @ c1" and e1: "filter isEndCall c1 = []" by blast
    show ?thesis
    proof (cases r1)
      case BodyOk
      obtain r2 b2 where er: "execRun G q (take nc cs) 0 b1 = (r2, b2)"
        by (cases "execRun G q (take nc cs) 0 b1")
      from execRun_trace [OF er] obtain c2 where
        t2: "trace b2 = trace b1 @ c2" and e2: "filter isEndCall c2 = []" by blast
      show ?thesis
      proof (cases r2)
        case (Some e)
        with "1.prems" False cr ur BodyOk er have "b' = b2"
          by (simp add: flushRuns.simps [of T G q cs])
        with t1 t2 e1 e2 have "trace b' = trace b @ (c1 @ c2) \<and> filter isEndCall (c1 @ c2) = []"
          by simp
        then show ?thesis by blast
      next
        case None
        with "1.prems" False cr ur BodyOk er
        have rec: "flushRuns T G q (drop nc cs) vs1 es1 b2 = (r, b')"
          by (simp add: flushRuns.simps [of T G q cs])
        have "\<exists>calls. trace b' = trace b2 @ calls \<and> filter isEndCall calls = []"
          using False cr [symmetric] ur [symmetric] BodyOk er [symmetric] None rec
          by (intro "1.IH" [where r = r and b' = b']) (auto)
        then obtain c3 where t3: "trace b' = trace b2 @ c3" and e3: "filter isEndCall c3 = []"
          by blast
        with t1 t2 e1 e2
        have "trace b' = trace b @ (c1 @ c2 @ c3) \<and> filter isEndCall (c1 @ c2 @ c3) = []"
          by simp
        then show ?thesis by blast
      qed
    next
      case (BodyErr e)
      with "1.prems" False cr ur have "b' = b1" by (simp add: flushRuns.simps [of T G q cs])
      with t1 e1 show ?thesis by blast
    next
      case (BodyPanic p)
      with "1.prems" False cr ur have "b' = b1" by (simp add: flushRuns.simps [of T G q cs])
      with t1 e1 show ?thesis by blast
    qed
  qed
qed

lemma flush_deferred_trace:
  assumes "flush_deferred G q endFrame b = (err1, q1, b1)"
  shows "\<exists>fin. trace b1 = trace b @ CallEnd endFrame # fin \<and> filter isEndCall fin = []"
    and "err1 = fst (End G endFrame (drv_state b))"
proof -
  obtain r b0 where ce: "callEnd G endFrame b = (r, b0)" by (cases "callEnd G endFrame b")
  note t = callEnd_trace [OF ce]
  have nf: "filter isEndCall (map CallFinalizer fs) = []" for fs
    by (induction fs) simp_all
  from assms ce have e: "err1 = r"
    and b: "b1 = (if endFrame then runFinalizers (finalizers q) b0 else b0)"
    by (auto simp: flush_deferred_def Let_def split: if_splits)
  from e t(2) show "err1 = fst (End G endFrame (drv_state b))" by simp
  show "\<exists>fin. trace b1 = trace b @ CallEnd endFrame # fin \<and> filter isEndCall fin = []"
  proof (cases endFrame)
    case True
    with b t(1) have "trace b1 = trace b @ CallEnd endFrame # map CallFinalizer (finalizers q)"
      by (simp add: runFinalizers_def)
    with nf show ?thesis by blast
  next
    case False
    with b t(1) have "trace b1 = trace b @ CallEnd endFrame # []" by simp
    then show ?thesis by (intro exI [of _ "[]"]) simp
  qed
qed

text \<open>
  Claim C3. During \<^verbatim>\<open>flush\<close>, once \<^verbatim>\<open>Begin()\<close> has returned nil, \<^verbatim>\<open>End(endFrame)\<close>
  is called exactly once before \<^verbatim>\<open>flush\<close> is left, on every path: when the body
  falls through, when \<^verbatim>\<open>SetVertices\<close> or the execution of a command returns an
  error, and when the body panics. An error of the body is the returned error; when
  the body has none, the result of \<^verbatim>\<open>End\<close> is returned.
\<close>

theorem C3_end_called_once:
  assumes active: "commands q \<noteq> [] \<or> endFrame"
    and begun: "fst (Begin G (drv_state b)) = None"
  shows "\<exists>b1 r b2 q1 b3 calls.
      callBegin G b = (None, b1)
    \<and> flushRuns T G q (commands q) (vertices q) (indices q) b1 = (r, b2)
    \<and> flush T G q endFrame b =
        ((case r of
            BodyOk \<Rightarrow> Returned (fst (End G endFrame (drv_state b2)))
          | BodyErr e \<Rightarrow> Returned (Some e)
          | BodyPanic p \<Rightarrow> Panicked p), q1, b3)
    \<and> trace b3 = trace b @ CallBegin # calls
    \<and> filter isEndCall calls = [CallEnd endFrame]"
proof -
  obtain r0 b1 where cb: "callBegin G b = (r0, b1)" by (cases "callBegin G b")
  from callBegin_trace [OF cb] begun have r0: "r0 = None"
    and t1: "trace b1 = trace b @ [CallBegin]" by simp_all
  from cb r0 have cb': "callBegin G b = (None, b1)" by simp
  obtain r b2 where fr: "flushRuns T G q (commands q) (vertices q) (indices q) b1 = (r, b2)"
    by (cases "flushRuns T G q (commands q) (vertices q) (indices q) b1")
  from flushRuns_trace [OF fr] obtain mid where
    t2: "trace b2 = trace b1 @ mid" and e2: "filter isEndCall mid = []" by blast
  obtain err1 q1 b3 where fd: "flush_deferred G q endFrame b2 = (err1, q1, b3)"
    by (cases "flush_deferred G q endFrame b2")
  from flush_deferred_trace [OF fd] obtain fin where
    t3: "trace b3 = trace b2 @ CallEnd endFrame # fin" and e3: "filter isEndCall fin = []"
    and er: "err1 = fst (End G endFrame (drv_state b2))"
    by blast
  have f: "flush T G q endFrame b =
        ((case r of
            BodyOk \<Rightarrow> Returned (fst (End G endFrame (drv_state b2)))
          | BodyErr e \<Rightarrow> Returned (Some e)
          | BodyPanic p \<Rightarrow> Panicked p), q1, b3)"
    using flush_begun [OF active cb' fr fd] er by (cases r) simp_all
  have tr: "trace b3 = trace b @ CallBegin # (mid @ CallEnd endFrame # fin)"
    using t1 t2 t3 by simp
  have en: "filter isEndCall (mid @ CallEnd endFrame # fin) = [CallEnd endFrame]"
    using e2 e3 by simp
  from cb' fr f tr en show ?thesis by blast
qed

lemma releaseCommands_eq: "releaseCommands p cs = p @ drawCommandsOf cs"
  by (induction p cs rule: releaseCommands.induct)
    (simp_all add: drawTrianglesCommandPool_put_def)

text \<open>
  Claim C10, as amended. After a call of \<^verbatim>\<open>flush\<close> in which \<^verbatim>\<open>Begin()\<close> returned nil
  (whether the flush then returns nil or an error, or panics), the command list, the
  vertex slice and the index slice of the queue are empty, the counter is zero and
  every draw command record was put to the pool, in the order of the queue. When
  \<^verbatim>\<open>flush\<close> has nothing to do (no command, not the end of a frame) or \<^verbatim>\<open>Begin()\<close> fails,
  the queue is left as it was: the deferred function is registered after \<^verbatim>\<open>Begin\<close>.
\<close>

theorem C10_cleanup_after_begin:
  "(((commands q \<noteq> [] \<or> endFrame) \<and> fst (Begin G (drv_state b)) = None) \<longrightarrow>
      commands (fst (snd (flush T G q endFrame b))) = []
      \<and> vertices (fst (snd (flush T G q endFrame b))) = []
      \<and> indices (fst (snd (flush T G q endFrame b))) = []
      \<and> tmpNumVertexFloats (fst (snd (flush T G q endFrame b))) = 0
      \<and> drawTrianglesCommandPool (fst (snd (flush T G q endFrame b)))
          = drawTrianglesCommandPool q @ drawCommandsOf (commands q))
   \<and> (((commands q = [] \<and> \<not> endFrame) \<or> fst (Begin G (drv_state b)) \<noteq> None) \<longrightarrow>
        fst (snd (flush T G q endFrame b)) = q)"
proof (intro conjI impI)
  assume a: "(commands q \<noteq> [] \<or> endFrame) \<and> fst (Begin G (drv_state b)) = None"
  then have active: "commands q \<noteq> [] \<or> endFrame" by simp
  obtain r0 b1 where cb: "callBegin G b = (r0, b1)" by (cases "callBegin G b")
  from callBegin_trace(2) [OF cb] a have cb': "callBegin G b = (None, b1)" using cb by simp
  obtain r b2 where fr: "flushRuns T G q (commands q) (vertices q) (indices q) b1 = (r, b2)"
    by (cases "flushRuns T G q (commands q) (vertices q) (indices q) b1")
  obtain err1 q1 b3 where fd: "flush_deferred G q endFrame b2 = (err1, q1, b3)"
    by (cases "flush_deferred G q endFrame b2")
  have q1: "fst (snd (flush T G q endFrame b)) = q1"
    by (simp add: flush_begun [OF active cb' fr fd])
  note d = flush_deferred_queue [OF fd]
  show "commands (fst (snd (flush T G q endFrame b))) = []" unfolding q1 by (rule d(1))
  show "vertices (fst (snd (flush T G q endFrame b))) = []" unfolding q1 by (rule d(2))
  show "indices (fst (snd (flush T G q endFrame b))) = []" unfolding q1 by (rule d(3))
  show "tmpNumVertexFloats (fst (snd (flush T G q endFrame b))) = 0" unfolding q1 by (rule d(4))
  show "drawTrianglesCommandPool (fst (snd (flush T G q endFrame b)))
          = drawTrianglesCommandPool q @ drawCommandsOf (commands q)"
    unfolding q1 d(5) by (rule releaseCommands_eq)
next
  assume a: "(commands q = [] \<and> \<not> endFrame) \<or> fst (Begin G (drv_state b)) \<noteq> None"
  show "fst (snd (flush T G q endFrame b)) = q"
  proof (cases "commands q = [] \<and> \<not> endFrame")
    case True
    then show ?thesis by (simp add: flush_noop)
  next
    case False
    then have active: "commands q \<noteq> [] \<or> endFrame" by simp
    obtain r0 b1 where cb: "callBegin G b = (r0, b1)" by (cases "callBegin G b")
    from callBegin_trace(2) [OF cb] a False obtain e where "r0 = Some e" by auto
    with cb have "callBegin G b = (Some e, b1)" by simp
    from flush_begin_failed [OF active this] show ?thesis by simp
  qed
qed

lemma ex_queue1_fields:
  "commands ex_queue1 = [DrawTrianglesCmd ex_cmd]" "vertices ex_queue1 = ex_vs"
  "indices ex_queue1 = ex_es" "tmpNumVertexFloats ex_queue1 = 32" "err ex_queue1 = None"
  "drawTrianglesCommandPool ex_queue1 = []" "finalizers ex_queue1 = []"
  by (simp_all add: ex_queue1_def newCommandQueue_def)

lemma ex_cmd_counts: "numVertices ex_cmd = 32" "numIndices ex_cmd = 6"
  by (simp_all add: ex_cmd_def newDrawTrianglesCommand_def numVertices_def numIndices_def
      ex_vs_def ex_es_def)

lemma ex_countRun: "countRun ex_platform [DrawTrianglesCmd ex_cmd] 0 0 0 = (32, 6, 1)"
  by (simp add: ex_cmd_counts)

lemma ex_flushRuns_failing:
  "flushRuns ex_platform ex_failingDriver ex_queue1 [DrawTrianglesCmd ex_cmd] ex_vs ex_es b
     = (BodyErr ex_deviceLost,
        \<lparr> drv_state = Suc (Suc (drv_state b)),
          trace = trace b @ [CallSetVertices ex_vs ex_es, CallExec (DrawTrianglesCmd ex_cmd) 0] \<rparr>)"
proof -
  have l: "length ex_vs = 32" "length ex_es = 6" by (simp_all add: ex_vs_def ex_es_def)
  have u: "uploadRun ex_failingDriver ex_vs ex_es 32 6 b
      = (BodyOk, [], [], \<lparr> drv_state = Suc (drv_state b),
           trace = trace b @ [CallSetVertices ex_vs ex_es] \<rparr>)"
    by (simp add: uploadRun_def l callSetVertices_def ex_failingDriver_def ex_driver_def)
  have e: "callExec ex_failingDriver ex_queue1 (DrawTrianglesCmd ex_cmd) 0 b1
      = (Some ex_deviceLost,
         \<lparr> drv_state = Suc (drv_state b1),
           trace = trace b1 @ [CallExec (DrawTrianglesCmd ex_cmd) 0] \<rparr>)" for b1
    by (simp add: callExec_def ex_failingDriver_def ex_driver_def)
  show ?thesis
    by (subst flushRuns.simps) (simp add: ex_cmd_counts u e)
qed

theorem C3_end_called_once_witness:
  "commands ex_queue1 \<noteq> []
   \<and> fst (Begin ex_failingDriver (drv_state ex_backend)) = None
   \<and> (\<exists>q1 b3. flush ex_platform ex_failingDriver ex_queue1 False ex_backend
                 = (Returned (Some ex_deviceLost), q1, b3)
          \<and> filter isEndCall (trace b3) = [CallEnd False])"
proof -
  have ne: "commands ex_queue1 \<noteq> []" by (simp add: ex_queue1_fields)
  have bg: "fst (Begin ex_failingDriver (drv_state ex_backend)) = None"
    by (simp add: ex_failingDriver_def ex_driver_def)
  from C3_end_called_once [of ex_queue1 False ex_failingDriver ex_backend ex_platform] ne bg
  obtain b1 r b2 q1 b3 calls where
    cb: "callBegin ex_failingDriver ex_backend = (None, b1)"
    and fr: "flushRuns ex_platform ex_failingDriver ex_queue1 (commands ex_queue1)
        (vertices ex_queue1) (indices ex_queue1) b1 = (r, b2)"
    and fl: "flush ex_platform ex_failingDriver ex_queue1 False ex_backend =
        ((case r of
            BodyOk \<Rightarrow> Returned (fst (End ex_failingDriver False (drv_state b2)))
          | BodyErr e \<Rightarrow> Returned (Some e)
          | BodyPanic p \<Rightarrow> Panicked p), q1, b3)"
    and tr: "trace b3 = trace ex_backend @ CallBegin # calls"
    and en: "filter isEndCall calls = [CallEnd False]"
    by blast
  from fr have "r = BodyErr ex_deviceLost"
    by (simp add: ex_queue1_fields ex_flushRuns_failing)
  with fl have f: "flush ex_platform ex_failingDriver ex_queue1 False ex_backend
                 = (Returned (Some ex_deviceLost), q1, b3)"
    by simp
  from tr en have "filter isEndCall (trace b3) = [CallEnd False]"
    by (simp add: ex_backend_def)
  with ne bg f show ?thesis by blast
qed

theorem C10_cleanup_after_begin_witness:
  "commands ex_queue1 \<noteq> []
   \<and> fst (Begin ex_driver (drv_state ex_backend)) = None
   \<and> commands (fst (snd (flush ex_platform ex_driver ex_queue1 True ex_backend))) = []
   \<and> vertices (fst (snd (flush ex_platform ex_driver ex_queue1 True ex_backend))) = []
   \<and> indices (fst (snd (flush ex_platform ex_driver ex_queue1 True ex_backend))) = []
   \<and> tmpNumVertexFloats (fst (snd (flush ex_platform ex_driver ex_queue1 True ex_backend))) = 0
   \<and> drawTrianglesCommandPool (fst (snd (flush ex_platform ex_driver ex_queue1 True ex_backend)))
       = [ex_cmd]
   \<and> fst (Begin ex_beginFailingDriver (drv_state ex_backend)) = Some ex_deviceLost
   \<and> fst (snd (flush ex_platform ex_beginFailingDriver ex_queue1 True ex_backend)) = ex_queue1"
proof -
  have ne: "commands ex_queue1 \<noteq> []" by (simp add: ex_queue1_fields)
  have bg: "fst (Begin ex_driver (drv_state ex_backend)) = None"
    by (simp add: ex_driver_def)
  have bf: "fst (Begin ex_beginFailingDriver (drv_state ex_backend)) = Some ex_deviceLost"
    by (simp add: ex_beginFailingDriver_def ex_driver_def)
  note a = C10_cleanup_after_begin [of ex_queue1 True ex_driver ex_backend ex_platform]
  note b = C10_cleanup_after_begin [of ex_queue1 True ex_beginFailingDriver ex_backend ex_platform]
  from a ne bg
  have 1: "commands (fst (snd (flush ex_platform ex_driver ex_queue1 True ex_backend))) = []
   \<and> vertices (fst (snd (flush ex_platform ex_driver ex_queue1 True ex_backend))) = []
   \<and> indices (fst (snd (flush ex_platform ex_driver ex_queue1 True ex_backend))) = []
   \<and> tmpNumVertexFloats (fst (snd (flush ex_platform ex_driver ex_queue1 True ex_backend))) = 0
   \<and> drawTrianglesCommandPool (fst (snd (flush ex_platform ex_driver ex_queue1 True ex_backend)))
       = [ex_cmd]"
    by (simp add: ex_queue1_fields)
  from b bf
  have 2: "fst (snd (flush ex_platform ex_beginFailingDriver ex_queue1 True ex_backend)) = ex_queue1"
    by simp
  from ne bg 1 bf 2 show ?thesis by blast
qed

theorem C10_counterexample:
  "fst (flush ex_platform ex_beginFailingDriver ex_queue1 True ex_backend)
     = Returned (Some ex_deviceLost)
   \<and> commands (fst (snd (flush ex_platform ex_beginFailingDriver ex_queue1 True ex_backend)))
       = [DrawTrianglesCmd ex_cmd]
   \<and> vertices (fst (snd (flush ex_platform ex_beginFailingDriver ex_queue1 True ex_backend)))
       = ex_vs
   \<and> indices (fst (snd (flush ex_platform ex_beginFailingDriver ex_queue1 True ex_backend)))
       = ex_es
   \<and> tmpNumVertexFloats
        (fst (snd (flush ex_platform ex_beginFailingDriver ex_queue1 True ex_backend))) = 32
   \<and> drawTrianglesCommandPool
        (fst (snd (flush ex_platform ex_beginFailingDriver ex_queue1 True ex_backend))) = []"
  by (simp add: flush_def callBegin_def ex_beginFailingDriver_def ex_driver_def
      ex_queue1_fields)

lemma anyNeedsSync_iff: "anyNeedsSync D cs = (\<exists>c \<in> set cs. NeedsSync D c)"
  by (induction cs) auto

lemma flushIsSync_iff:
  "flushIsSync D vsyncEnabled q endFrame
     = ((endFrame \<and> vsyncEnabled) \<or> (\<exists>c \<in> set (commands q). NeedsSync D c))"
  by (auto simp: flushIsSync_def Let_def anyNeedsSync_iff)

lemma Flush_stored_error:
  assumes "err q = Some e"
  shows "Flush T D G vsyncEnabled q endFrame b
     = \<lparr> ret = Some e, crashed = None, queue = q, backend_after = b, mode = None,
         pooled = False \<rparr>"
  using assms by (simp add: Flush_def)

lemma Flush_ran:
  assumes "err q = None"
  shows "mode (Flush T D G vsyncEnabled q endFrame b)
     = Some (if flushIsSync D vsyncEnabled q endFrame then Synchronous else Asynchronous)"
proof -
  obtain r q1 b1 where f: "flush T G q endFrame b = (r, q1, b1)"
    by (cases "flush T G q endFrame b")
  show ?thesis
  proof (cases r)
    case (Panicked p)
    with assms f show ?thesis by (simp add: Flush_def Let_def)
  next
    case (Returned eo)
    with assms f show ?thesis by (cases eo) (simp_all add: Flush_def Let_def)
  qed
qed

lemma Flush_async:
  assumes "err q = None" and "\<not> flushIsSync D vsyncEnabled q endFrame"
  shows "ret (Flush T D G vsyncEnabled q endFrame b) = None"
proof -
  obtain r q1 b1 where f: "flush T G q endFrame b = (r, q1, b1)"
    by (cases "flush T G q endFrame b")
  show ?thesis
  proof (cases r)
    case (Panicked p)
    with assms f show ?thesis by (simp add: Flush_def Let_def)
  next
    case (Returned eo)
    with assms f show ?thesis by (cases eo) (simp_all add: Flush_def Let_def)
  qed
qed

lemma Flush_async_failed:
  assumes "err q = None" and "\<not> flushIsSync D vsyncEnabled q endFrame"
    and "flush T G q endFrame b = (Returned (Some e), q1, b1)"
  shows "Flush T D G vsyncEnabled q endFrame b
     = \<lparr> ret = None, crashed = None, queue = q1\<lparr>err := Some e\<rparr>, backend_after = b1,
         mode = Some Asynchronous, pooled = False \<rparr>"
  using assms by (simp add: Flush_def Let_def)

lemma firstStoredError_member:
  assumes "q \<in> set cache" and "err q = Some e"
  shows "\<exists>e'. firstStoredError cache = Some e'"
  using assms by (induction cache) (auto split: option.splits)

lemma commandQueuePool_get_stored_error:
  assumes "q \<in> set cache" and "err q = Some e"
  shows "\<exists>e'. commandQueuePool_get cache = (Inl e', cache)"
proof -
  from firstStoredError_member [OF assms] obtain e' where "firstStoredError cache = Some e'"
    by blast
  moreover from assms(1) have "cache \<noteq> []" by auto
  ultimately show ?thesis by (simp add: commandQueuePool_get_def)
qed

lemma manager_flush_stored_error:
  assumes "err q = Some e"
  shows "\<exists>e' c'. commandQueueManager_flush T D G vsyncEnabled \<lparr> pool = cache, current = Some q \<rparr>
            endFrame b = (Returned (Some e'), c', b)"
proof -
  obtain g cache' where g: "commandQueuePool_get cache = (g, cache')"
    by (cases "commandQueuePool_get cache")
  show ?thesis
  proof (cases g)
    case (Inl e')
    with g show ?thesis by (simp add: commandQueueManager_flush_def)
  next
    case (Inr q0)
    with g show ?thesis
      by (simp add: commandQueueManager_flush_def Let_def Flush_stored_error [OF assms])
  qed
qed

text \<open>
  Claim C7, as amended. For a queue with no stored error, \<^verbatim>\<open>Flush\<close> hands the flush to
  the render thread, synchronously if and only if \<open>endFrame\<close> holds and vsync is
  enabled, or some queued command reports \<^verbatim>\<open>NeedsSync()\<close>; otherwise the flush runs
  asynchronously and \<^verbatim>\<open>Flush\<close> returns nil. (A queue with a stored error makes
  \<^verbatim>\<open>Flush\<close> return that error before the decision: nothing is run.)
\<close>

theorem C7_sync_decision:
  assumes "err q = None"
  shows "mode (Flush T D G vsyncEnabled q endFrame b)
      = Some (if (endFrame \<and> vsyncEnabled) \<or> (\<exists>c \<in> set (commands q). NeedsSync D c)
              then Synchronous else Asynchronous)
    \<and> (if (endFrame \<and> vsyncEnabled) \<or> (\<exists>c \<in> set (commands q). NeedsSync D c)
        then True
        else ret (Flush T D G vsyncEnabled q endFrame b) = None)"
proof (cases "flushIsSync D vsyncEnabled q endFrame")
  case True
  with Flush_ran [OF assms, of T D G vsyncEnabled endFrame b] show ?thesis
    by (simp add: flushIsSync_iff)
next
  case False
  with Flush_ran [OF assms, of T D G vsyncEnabled endFrame b]
    Flush_async [OF assms False, of T G b]
  show ?thesis by (simp add: flushIsSync_iff)
qed

lemma ex_needsSync: "(\<exists>c \<in> set (commands ex_queue1). NeedsSync ex_deps c) = False"
  by (simp add: ex_queue1_def newCommandQueue_def ex_deps_def ex_readPixels_def)

theorem C7_sync_decision_witness:
  "err ex_queue1 = None
   \<and> mode (Flush ex_platform ex_deps ex_driver True ex_queue1 True ex_backend) = Some Synchronous
   \<and> mode (Flush ex_platform ex_deps ex_driver True ex_queue1 False ex_backend) = Some Asynchronous
   \<and> ret (Flush ex_platform ex_deps ex_driver True ex_queue1 False ex_backend) = None
   \<and> mode (Flush ex_platform ex_deps ex_driver True (Enqueue ex_queue1 ex_readPixels) False
           ex_backend) = Some Synchronous"
proof -
  have e: "err ex_queue1 = None" by (simp add: ex_queue1_def newCommandQueue_def)
  have e2: "err (Enqueue ex_queue1 ex_readPixels) = None"
    by (simp add: Enqueue_def ex_queue1_def newCommandQueue_def)
  have n2: "(\<exists>c \<in> set (commands (Enqueue ex_queue1 ex_readPixels)). NeedsSync ex_deps c) = True"
    by (simp add: Enqueue_def ex_deps_def)
  from C7_sync_decision [OF e, where T = ex_platform and D = ex_deps and G = ex_driver
      and vsyncEnabled = True and endFrame = True and b = ex_backend]
  have 1: "mode (Flush ex_platform ex_deps ex_driver True ex_queue1 True ex_backend)
      = Some Synchronous"
    by simp
  from C7_sync_decision [OF e, where T = ex_platform and D = ex_deps and G = ex_driver
      and vsyncEnabled = True and endFrame = False and b = ex_backend]
  have 2: "mode (Flush ex_platform ex_deps ex_driver True ex_queue1 False ex_backend)
        = Some Asynchronous
      \<and> ret (Flush ex_platform ex_deps ex_driver True ex_queue1 False ex_backend) = None"
    by (simp add: ex_needsSync)
  from C7_sync_decision [OF e2, where T = ex_platform and D = ex_deps and G = ex_driver
      and vsyncEnabled = True and endFrame = False and b = ex_backend]
  have 3: "mode (Flush ex_platform ex_deps ex_driver True (Enqueue ex_queue1 ex_readPixels) False
           ex_backend) = Some Synchronous"
    by (simp add: n2)
  from e 1 2 3 show ?thesis by blast
qed

theorem C7_counterexample:
  "mode (Flush ex_platform ex_deps ex_driver True ex_queueErr True ex_backend) = None
   \<and> ret (Flush ex_platform ex_deps ex_driver True ex_queueErr True ex_backend)
       = Some ex_deviceLost
   \<and> anyNeedsSync ex_deps (commands ex_queueErr) = False
   \<and> mode (Flush ex_platform ex_deps ex_driver True ex_queueErr False ex_backend) = None
   \<and> ret (Flush ex_platform ex_deps ex_driver True ex_queueErr False ex_backend)
       = Some ex_deviceLost"
  by (simp add: Flush_def ex_queueErr_def ex_queue1_def newCommandQueue_def ex_deps_def
      ex_readPixels_def)

lemma ex_flush_failing:
  "\<exists>q1 b1. flush ex_platform ex_failingDriver ex_queue1 False ex_backend
     = (Returned (Some ex_deviceLost), q1, b1)"
proof -
  have ne: "commands ex_queue1 \<noteq> [] \<or> False" by (simp add: ex_queue1_fields)
  obtain b1 where cb: "callBegin ex_failingDriver ex_backend = (None, b1)"
    by (simp add: callBegin_def ex_failingDriver_def ex_driver_def)
  obtain b2 where fr: "flushRuns ex_platform ex_failingDriver ex_queue1 (commands ex_queue1)
      (vertices ex_queue1) (indices ex_queue1) b1 = (BodyErr ex_deviceLost, b2)"
    by (simp add: ex_queue1_fields ex_flushRuns_failing)
  obtain err1 q1 b3 where fd: "flush_deferred ex_failingDriver ex_queue1 False b2 = (err1, q1, b3)"
    by (cases "flush_deferred ex_failingDriver ex_queue1 False b2")
  from flush_begun [OF ne cb fr fd] show ?thesis by simp
qed

text \<open>
  Claim C2. When the flush of a queue runs asynchronously and returns an error of the
  backend, \<^verbatim>\<open>Flush\<close> returns nil to its caller and the error is stored in the error
  slot of the queue, which is not put back to the pool. Any later \<^verbatim>\<open>Flush\<close> of that
  queue returns the stored error and leaves the backend untouched (no call is made);
  so does \<^verbatim>\<open>commandQueueManager.flush\<close> when that queue is the current one, and
  \<^verbatim>\<open>commandQueuePool.get\<close> returns an error when the queue is in the cache.
\<close>

theorem C2_async_error_stored:
  assumes noerr: "err q = None"
    and async: "\<not> ((endFrame \<and> vsyncEnabled) \<or> (\<exists>c \<in> set (commands q). NeedsSync D c))"
    and failed: "fst (flush T G q endFrame b) = Returned (Some e)"
  shows "ret (Flush T D G vsyncEnabled q endFrame b) = None
    \<and> crashed (Flush T D G vsyncEnabled q endFrame b) = None
    \<and> mode (Flush T D G vsyncEnabled q endFrame b) = Some Asynchronous
    \<and> err (queue (Flush T D G vsyncEnabled q endFrame b)) = Some e
    \<and> pooled (Flush T D G vsyncEnabled q endFrame b) = False
    \<and> Flush Tnext Dnext Gnext vsyncNext (queue (Flush T D G vsyncEnabled q endFrame b)) endFrameNext bNext
        = \<lparr> ret = Some e, crashed = None,
            queue = queue (Flush T D G vsyncEnabled q endFrame b),
            backend_after = bNext, mode = None, pooled = False \<rparr>
    \<and> (\<exists>e' c'. commandQueueManager_flush Tnext Dnext Gnext vsyncNext
                  \<lparr> pool = cache, current = Some (queue (Flush T D G vsyncEnabled q endFrame b)) \<rparr>
                  endFrameNext bNext = (Returned (Some e'), c', bNext))
    \<and> (queue (Flush T D G vsyncEnabled q endFrame b) \<in> set cache
         \<longrightarrow> (\<exists>e'. commandQueuePool_get cache = (Inl e', cache)))"
proof -
  from async have a: "\<not> flushIsSync D vsyncEnabled q endFrame" by (simp add: flushIsSync_iff)
  obtain r q1 b1 where f: "flush T G q endFrame b = (r, q1, b1)"
    by (cases "flush T G q endFrame b")
  with failed have f': "flush T G q endFrame b = (Returned (Some e), q1, b1)" by simp
  note F = Flush_async_failed [OF noerr a f']
  have se: "err (queue (Flush T D G vsyncEnabled q endFrame b)) = Some e"
    by (simp add: F)
  show ?thesis
  proof (intro conjI impI)
    show "ret (Flush T D G vsyncEnabled q endFrame b) = None" by (simp add: F)
    show "crashed (Flush T D G vsyncEnabled q endFrame b) = None" by (simp add: F)
    show "mode (Flush T D G vsyncEnabled q endFrame b) = Some Asynchronous" by (simp add: F)
    show "err (queue (Flush T D G vsyncEnabled q endFrame b)) = Some e" by (rule se)
    show "pooled (Flush T D G vsyncEnabled q endFrame b) = False" by (simp add: F)
    show "Flush Tnext Dnext Gnext vsyncNext (queue (Flush T D G vsyncEnabled q endFrame b)) endFrameNext bNext
        = \<lparr> ret = Some e, crashed = None,
            queue = queue (Flush T D G vsyncEnabled q endFrame b),
            backend_after = bNext, mode = None, pooled = False \<rparr>"
      by (rule Flush_stored_error [OF se])
    show "\<exists>e' c'. commandQueueManager_flush Tnext Dnext Gnext vsyncNext
                  \<lparr> pool = cache, current = Some (queue (Flush T D G vsyncEnabled q endFrame b)) \<rparr>
                  endFrameNext bNext = (Returned (Some e'), c', bNext)"
      by (rule manager_flush_stored_error [OF se])
  next
    assume "queue (Flush T D G vsyncEnabled q endFrame b) \<in> set cache"
    then show "\<exists>e'. commandQueuePool_get cache = (Inl e', cache)"
      using se by (rule commandQueuePool_get_stored_error)
  qed
qed

theorem C2_async_error_stored_witness:
  "err ex_queue1 = None
   \<and> fst (flush ex_platform ex_failingDriver ex_queue1 False ex_backend)
       = Returned (Some ex_deviceLost)
   \<and> ret (Flush ex_platform ex_deps ex_failingDriver True ex_queue1 False ex_backend) = None
   \<and> err (queue (Flush ex_platform ex_deps ex_failingDriver True ex_queue1 False ex_backend))
       = Some ex_deviceLost
   \<and> ret (Flush ex_platform ex_deps ex_driver True
             (queue (Flush ex_platform ex_deps ex_failingDriver True ex_queue1 False ex_backend))
             True ex_backend) = Some ex_deviceLost
   \<and> backend_after (Flush ex_platform ex_deps ex_driver True
             (queue (Flush ex_platform ex_deps ex_failingDriver True ex_queue1 False ex_backend))
             True ex_backend) = ex_backend"
proof -
  have e: "err ex_queue1 = None" by (simp add: ex_queue1_fields)
  have a: "\<not> ((False \<and> True) \<or> (\<exists>c \<in> set (commands ex_queue1). NeedsSync ex_deps c))"
    by (simp add: ex_needsSync)
  from ex_flush_failing
  have f: "fst (flush ex_platform ex_failingDriver ex_queue1 False ex_backend)
       = Returned (Some ex_deviceLost)"
    by auto
  note t = C2_async_error_stored [OF e a f, where Tnext = ex_platform and Dnext = ex_deps
      and Gnext = ex_driver and vsyncNext = True and endFrameNext = True and bNext = ex_backend
      and cache = "[]"]
  from t have 1: "ret (Flush ex_platform ex_deps ex_failingDriver True ex_queue1 False ex_backend)
      = None" by blast
  from t have 2: "err (queue (Flush ex_platform ex_deps ex_failingDriver True ex_queue1 False
      ex_backend)) = Some ex_deviceLost" by blast
  from t have 3: "Flush ex_platform ex_deps ex_driver True
             (queue (Flush ex_platform ex_deps ex_failingDriver True ex_queue1 False ex_backend))
             True ex_backend
      = \<lparr> ret = Some ex_deviceLost, crashed = None,
            queue = queue (Flush ex_platform ex_deps ex_failingDriver True ex_queue1 False
              ex_backend),
            backend_after = ex_backend, mode = None, pooled = False \<rparr>" by blast
  from e f 1 2 show ?thesis unfolding 3 by simp
qed

end
